theory Spec2Isabelle
  imports Complex_Main "HOL-Library.AList"
begin

section \<open>JavaScript values\<close>

text \<open>
  A JavaScript number is NaN, an infinity or a finite value. Finite values are kept
  exact (as rationals); the two zeros are not told apart (both are falsy and both
  compare equal to 0).
\<close>

datatype jsnum = NaN | PosInf | NegInf | Fin rat

text \<open>What \<^verbatim>\<open>JSON.parse\<close> can return.\<close>

datatype json =
    JNull
  | JBool bool
  | JNum jsnum
  | JStr string
  | JArr "json list"
  | JObj "(string \<times> json) list"

text \<open>
  The value of a property of a task object: \<^verbatim>\<open>undefined\<close>, a JSON-like value, or
  the string written by \<^verbatim>\<open>new Date().toISOString()\<close> at the instant \<open>t\<close>
  (milliseconds since the epoch), which \<^verbatim>\<open>new Date(s)\<close> reads back as \<open>t\<close>.
\<close>

datatype jsval = Undefined | IsoTime int | Json json

text \<open>An object is the map from its own property names to their values.\<close>

type_synonym jsobj = "string \<Rightarrow> jsval option"

section \<open>utils/task-manager.js: class TaskManager\<close>

text \<open>
  \<^verbatim>\<open>this.tasks\<close> is a JavaScript \<^verbatim>\<open>Map\<close>: it iterates in insertion order, \<^verbatim>\<open>set\<close> on
  a key already present replaces the value in place, and \<^verbatim>\<open>set\<close> on a new key appends.
  That is an association list with \<^const>\<open>AList.update\<close>; \<^verbatim>\<open>delete\<close> is
  \<^const>\<open>AList.delete\<close> and \<^verbatim>\<open>get\<close> is \<^const>\<open>map_of\<close>.
\<close>

record task_manager =
  tasks :: "(string \<times> jsobj) list"
  maxTasks :: nat
  cleanupInterval :: nat

definition new_TaskManager :: task_manager where
  "new_TaskManager = \<lparr>tasks = [], maxTasks = 100, cleanupInterval = 60 * 60 * 1000\<rparr>"

text \<open>
  \<^verbatim>\<open>new Date(v)\<close> as a time value; \<open>None\<close> is the invalid date (NaN). The registry
  writes \<open>createdAt\<close> and \<open>updatedAt\<close> itself, as \<^verbatim>\<open>toISOString\<close> strings, which read
  back as the instant written. A number is clipped (\<^verbatim>\<open>TimeClip\<close>: invalid beyond
  8.64e15 ms, truncated towards zero otherwise), \<^verbatim>\<open>null\<close> and \<^verbatim>\<open>false\<close> are 0, \<^verbatim>\<open>true\<close>
  is 1, \<^verbatim>\<open>undefined\<close> and a missing property are invalid. The date parse of any other
  string, and of the string of an array or object, is not modelled: such a value is
  taken as invalid. It can stand under \<open>createdAt\<close> only after an update map that
  sets that property, which no caller passes.
\<close>

fun dateValue :: "jsval option \<Rightarrow> int option" where
  "dateValue (Some (IsoTime t)) = Some t"
| "dateValue (Some (Json (JNum (Fin q)))) =
     (if \<bar>q\<bar> \<le> 8640000000000000 then Some (if 0 \<le> q then \<lfloor>q\<rfloor> else \<lceil>q\<rceil>) else None)"
| "dateValue (Some (Json JNull)) = Some 0"
| "dateValue (Some (Json (JBool b))) = Some (if b then 1 else 0)"
| "dateValue _ = None"

text \<open>The comparator \<^verbatim>\<open>(a, b) => new Date(a.createdAt) - new Date(b.createdAt)\<close>.\<close>

definition byCreatedAt :: "jsobj \<Rightarrow> jsobj \<Rightarrow> jsnum" where
  "byCreatedAt a b =
     (case (dateValue (a ''createdAt''), dateValue (b ''createdAt'')) of
        (Some x, Some y) \<Rightarrow> Fin (of_int (x - y))
      | _ \<Rightarrow> NaN)"

text \<open>\<^verbatim>\<open>v > 0\<close> on numbers; a comparator result of NaN counts as 0 in \<^verbatim>\<open>sort\<close>.\<close>

fun positive :: "jsnum \<Rightarrow> bool" where
  "positive (Fin q) = (0 < q)"
| "positive PosInf = True"
| "positive _ = False"

text \<open>
  \<^verbatim>\<open>Array.prototype.sort(cmp)\<close> is stable: an element moves behind a later one only
  when the comparator puts it strictly after it. Here as an insertion sort, which is
  the result of \<^verbatim>\<open>sort\<close> for a consistent comparator. When the comparator gives NaN
  for some pair (an invalid \<open>createdAt\<close>) it is not consistent, the order \<^verbatim>\<open>sort\<close>
  produces is left to the implementation, and this function is one such order only.
\<close>

fun js_insert :: "('a \<Rightarrow> 'a \<Rightarrow> jsnum) \<Rightarrow> 'a \<Rightarrow> 'a list \<Rightarrow> 'a list" where
  "js_insert cmp x [] = [x]"
| "js_insert cmp x (y # ys) =
     (if positive (cmp x y) then y # js_insert cmp x ys else x # y # ys)"

fun js_sort :: "('a \<Rightarrow> 'a \<Rightarrow> jsnum) \<Rightarrow> 'a list \<Rightarrow> 'a list" where
  "js_sort cmp [] = []"
| "js_sort cmp (x # xs) = js_insert cmp x (js_sort cmp xs)"

text \<open>\<^verbatim>\<open>this.tasks.delete(task.taskId)\<close>: only a string can be a key of the registry.\<close>

fun deleteKey :: "jsval option \<Rightarrow> (string \<times> jsobj) list \<Rightarrow> (string \<times> jsobj) list" where
  "deleteKey (Some (Json (JStr k))) ts = AList.delete k ts"
| "deleteKey _ ts = ts"

definition cleanupOldTasks :: "task_manager \<Rightarrow> task_manager" where
  "cleanupOldTasks tm =
     (if length (tasks tm) \<le> maxTasks tm then tm
      else
        let sorted = js_sort byCreatedAt (map snd (tasks tm));
            tasksToRemove = take (length (tasks tm) - maxTasks tm) sorted
        in tm\<lparr>tasks := foldl (\<lambda>ts task. deleteKey (task ''taskId'') ts) (tasks tm) tasksToRemove\<rparr>)"

text \<open>
  \<^verbatim>\<open>createTask(taskData)\<close>. The fresh identifier \<^verbatim>\<open>uuidv4()\<close> and the clock are
  arguments. The task object is \<^verbatim>\<open>{taskId, ...taskData, createdAt, updatedAt}\<close>.
\<close>

definition newTask :: "string \<Rightarrow> jsobj \<Rightarrow> int \<Rightarrow> jsobj" where
  "newTask taskId taskData now =
     ([''taskId'' \<mapsto> Json (JStr taskId)] ++ taskData)
       (''createdAt'' \<mapsto> IsoTime now, ''updatedAt'' \<mapsto> IsoTime now)"

definition createTask :: "task_manager \<Rightarrow> string \<Rightarrow> jsobj \<Rightarrow> int \<Rightarrow> string \<times> task_manager" where
  "createTask tm taskId taskData now =
     (taskId,
      cleanupOldTasks (tm\<lparr>tasks := AList.update taskId (newTask taskId taskData now) (tasks tm)\<rparr>))"

definition getTask :: "task_manager \<Rightarrow> string \<Rightarrow> jsobj option" where
  "getTask tm taskId = map_of (tasks tm) taskId"

text \<open>
  \<^verbatim>\<open>updateTask(taskId, updates)\<close>: \<^verbatim>\<open>{...task, ...updates, updatedAt}\<close> stored under
  the same key, or \<^verbatim>\<open>false\<close> when the key is absent.
\<close>

definition updateTask :: "task_manager \<Rightarrow> string \<Rightarrow> jsobj \<Rightarrow> int \<Rightarrow> bool \<times> task_manager" where
  "updateTask tm taskId updates now =
     (case map_of (tasks tm) taskId of
        None \<Rightarrow> (False, tm)
      | Some task \<Rightarrow>
          (True, tm\<lparr>tasks := AList.update taskId
                     ((task ++ updates)(''updatedAt'' \<mapsto> IsoTime now)) (tasks tm)\<rparr>))"

text \<open>
  A run of \<^verbatim>\<open>createTask\<close> calls, each with the identifier \<^verbatim>\<open>uuidv4()\<close> returned, the
  task data passed and the clock at the call; \<open>created\<close> is the entry such a call stores.
\<close>

fun createTasks :: "task_manager \<Rightarrow> (string \<times> jsobj \<times> int) list \<Rightarrow> task_manager" where
  "createTasks tm [] = tm"
| "createTasks tm ((taskId, taskData, now) # cs) =
     createTasks (snd (createTask tm taskId taskData now)) cs"

definition created :: "string \<times> jsobj \<times> int \<Rightarrow> string \<times> jsobj" where
  "created c = (case c of (taskId, taskData, now) \<Rightarrow> (taskId, newTask taskId taskData now))"

section \<open>utils/video-processor.js: the progress parser of processVideo\<close>

text \<open>
  Two built-ins of the JavaScript runtime are arguments of the model: \<^verbatim>\<open>JSON.parse\<close>
  (\<open>None\<close> when it throws a SyntaxError) and \<^verbatim>\<open>parseFloat\<close> on a string. Every
  theorem below holds for whatever these two functions are.
\<close>

record runtime =
  JSON_parse :: "string \<Rightarrow> json option"
  parseFloat_string :: "string \<Rightarrow> jsnum"

text \<open>
  Text is a list of 8-bit code units. \<^verbatim>\<open>String.prototype.trim\<close> removes white space
  and line terminators at both ends; in this range these are TAB, LF, VT, FF, CR, SP
  and NBSP.
\<close>

definition is_space :: "char \<Rightarrow> bool" where
  "is_space c \<longleftrightarrow>
     c \<in> set [CHR 0x09, CHR 0x0A, CHR 0x0B, CHR 0x0C, CHR 0x0D, CHR 0x20, CHR 0xA0]"

definition trim :: "string \<Rightarrow> string" where
  "trim s = rev (dropWhile is_space (rev (dropWhile is_space s)))"

text \<open>\<^verbatim>\<open>s.split('\n')\<close>: never empty; the last element is what follows the last
  newline.\<close>

fun split_newline :: "string \<Rightarrow> string list" where
  "split_newline [] = [[]]"
| "split_newline (c # cs) =
     (if c = CHR 0x0A then [] # split_newline cs
      else (case split_newline cs of
              [] \<Rightarrow> [[c]]
            | l # ls \<Rightarrow> (c # l) # ls))"

text \<open>
  \<^verbatim>\<open>v.status\<close> and \<^verbatim>\<open>v.percent\<close> on a decoded value other than \<^verbatim>\<open>null\<close>; \<open>None\<close> is
  \<^verbatim>\<open>undefined\<close>. Numbers, booleans, strings and arrays have no property of either name.
\<close>

fun json_get :: "json \<Rightarrow> string \<Rightarrow> json option" where
  "json_get (JObj ps) k = map_of ps k"
| "json_get _ k = None"

fun truthy :: "json option \<Rightarrow> bool" where
  "truthy None = False"
| "truthy (Some JNull) = False"
| "truthy (Some (JBool b)) = b"
| "truthy (Some (JNum n)) = (n \<noteq> NaN \<and> n \<noteq> Fin 0)"
| "truthy (Some (JStr s)) = (s \<noteq> [])"
| "truthy (Some (JArr xs)) = True"
| "truthy (Some (JObj ps)) = True"

text \<open>
  \<^verbatim>\<open>parseFloat(v)\<close> parses a prefix of \<^verbatim>\<open>String(v)\<close>. The string of a number parses back
  to that number; \<^verbatim>\<open>undefined\<close>, \<^verbatim>\<open>null\<close>, booleans and objects give text that starts
  with no number; the string of an array starts with the string of its first element,
  followed by a comma or the end.
\<close>

fun parseFloat :: "(string \<Rightarrow> jsnum) \<Rightarrow> json option \<Rightarrow> jsnum" where
  "parseFloat pf (Some (JNum n)) = n"
| "parseFloat pf (Some (JStr s)) = pf s"
| "parseFloat pf (Some (JArr (x # xs))) = parseFloat pf (Some x)"
| "parseFloat pf _ = NaN"

text \<open>What the handler of stdout data does, in order.\<close>

datatype effect = JsonParse string | Callback jsnum | ConsoleLog string

text \<open>
  The body of the \<^verbatim>\<open>try\<close> after \<^verbatim>\<open>JSON.parse\<close> returned \<open>progressInfo\<close>; \<open>None\<close> is
  the TypeError of a property read on \<^verbatim>\<open>null\<close>. The callback is the one
  \<^verbatim>\<open>routes/api.js\<close> passes, so it is there.
\<close>

definition handleProgressInfo :: "runtime \<Rightarrow> json \<Rightarrow> effect list option" where
  "handleProgressInfo rt progressInfo =
     (if progressInfo = JNull then None
      else if json_get progressInfo ''status'' = Some (JStr ''downloading'')
              \<and> truthy (json_get progressInfo ''percent'')
      then (let progress = parseFloat (parseFloat_string rt) (json_get progressInfo ''percent'')
            in if progress \<noteq> NaN then Some [Callback progress] else Some [])
      else Some [])"

text \<open>One iteration of \<^verbatim>\<open>for (const line of lines)\<close>; the \<^verbatim>\<open>catch\<close> logs the line.\<close>

definition processLine :: "runtime \<Rightarrow> string \<Rightarrow> effect list" where
  "processLine rt line =
     (if trim line = [] then []
      else JsonParse (trim line) #
        (case JSON_parse rt (trim line) of
           None \<Rightarrow> [ConsoleLog (trim line)]
         | Some progressInfo \<Rightarrow>
             (case handleProgressInfo rt progressInfo of
                None \<Rightarrow> [ConsoleLog (trim line)]
              | Some effects \<Rightarrow> effects)))"

text \<open>The handler \<^verbatim>\<open>ytDlpProcess.stdout.on('data', ...)\<close>: the new value of
  \<^verbatim>\<open>progressData\<close> and what the loop over its lines does.\<close>

definition onStdoutData :: "runtime \<Rightarrow> string \<Rightarrow> string \<Rightarrow> string \<times> effect list" where
  "onStdoutData rt progressData output =
     (progressData @ output,
      concat (map (processLine rt) (split_newline (progressData @ output))))"

section \<open>utils/video-processor.js: the promise of processVideo\<close>

text \<open>The errors the promise is rejected with, and their \<^verbatim>\<open>message\<close>.\<close>

datatype pv_error =
    OutputMissingOrEmpty string
  | ProcessFailed "int option" string
  | NotInstalled
  | ProcessError string
  | DownloadTimeout

fun digits :: "nat \<Rightarrow> string" where
  "digits n =
     (if n < 10 then [''0123456789'' ! n]
      else digits (n div 10) @ [''0123456789'' ! (n mod 10)])"

declare digits.simps [simp del]

fun show_code :: "int option \<Rightarrow> string" where
  "show_code None = ''null''"
| "show_code (Some i) = (if i < 0 then ''-'' @ digits (nat (- i)) else digits (nat i))"

fun message :: "pv_error \<Rightarrow> string" where
  "message (OutputMissingOrEmpty m) = ''Output file not found or empty: '' @ m"
| "message (ProcessFailed code details) = ''yt-dlp process failed with code '' @ show_code code"
| "message NotInstalled = ''yt-dlp is not installed or not in PATH''"
| "message (ProcessError m) = ''Process error: '' @ m"
| "message DownloadTimeout = ''Video download timeout (30 minutes)''"

datatype outcome = Resolved string string nat | Rejected pv_error

datatype timer = Armed | Cleared | Fired

text \<open>
  The state the handlers of one \<^verbatim>\<open>processVideo\<close> call share: the file name and path
  chosen at the start, the two buffers, the promise (\<open>None\<close> while pending), the
  30-minute timer and the number of \<^verbatim>\<open>kill('SIGTERM')\<close> calls made.
\<close>

record pv_state =
  filename :: string
  outputPath :: string
  progressData :: string
  errorOutput :: string
  settled :: "outcome option"
  timeout :: timer
  signals :: nat

definition timeout_ms :: nat where
  "timeout_ms = 30 * 60 * 1000"

text \<open>The state when the executor has run to its end: process spawned, handlers
  attached, timer set.\<close>

definition processVideo_spawned :: "string \<Rightarrow> string \<Rightarrow> pv_state" where
  "processVideo_spawned name path =
     \<lparr>filename = name, outputPath = path, progressData = [], errorOutput = [],
      settled = None, timeout = Armed, signals = 0\<rparr>"

text \<open>\<^verbatim>\<open>resolve\<close> and \<^verbatim>\<open>reject\<close> settle a pending promise and do nothing otherwise.\<close>

definition settle :: "outcome \<Rightarrow> pv_state \<Rightarrow> pv_state" where
  "settle out s = (if settled s = None then s\<lparr>settled := Some out\<rparr> else s)"

text \<open>The result of \<^verbatim>\<open>fs.stat(outputPath)\<close>: the size, or the message of the error.\<close>

datatype stat_result = StatOk nat | StatError string

text \<open>
  What can happen to a spawned process: a chunk on stdout or stderr, its \<^verbatim>\<open>close\<close>
  event (with the exit code, \<^verbatim>\<open>null\<close> after a signal, and the result of the
  \<^verbatim>\<open>fs.stat\<close> the handler awaits when the code is 0), its \<^verbatim>\<open>error\<close> event (with
  \<^verbatim>\<open>error.code\<close> and \<^verbatim>\<open>error.message\<close>), and the timer running out. A timer that was
  cleared or has fired does not fire. After \<^verbatim>\<open>close\<close> the streams of the process are closed
  and the timer is cleared, so nothing of this process is handled between the
  \<^verbatim>\<open>await fs.stat\<close> of the handler and its continuation: the two are one step. An
  exception thrown before the process is spawned (lines 147-150) rejects the promise
  at once, with no process and no timer; runs are modelled from a spawned process on.
\<close>

datatype event =
    StdoutData string
  | StderrData string
  | Close "int option" stat_result
  | ProcError "string option" string
  | TimerFires

text \<open>The events that carry output of the process.\<close>

fun is_output :: "event \<Rightarrow> bool" where
  "is_output (StdoutData output) = True"
| "is_output (StderrData output) = True"
| "is_output e = False"

text \<open>The first \<^verbatim>\<open>close\<close> handler.\<close>

definition onClose :: "int option \<Rightarrow> stat_result \<Rightarrow> pv_state \<Rightarrow> pv_state" where
  "onClose code stat s =
     (if code = Some 0 then
        (case stat of
           StatOk bytes \<Rightarrow>
             if bytes > 0 then settle (Resolved (filename s) (outputPath s) bytes) s
             else settle (Rejected (OutputMissingOrEmpty ''Downloaded file is empty'')) s
         | StatError m \<Rightarrow> settle (Rejected (OutputMissingOrEmpty m)) s)
      else settle (Rejected (ProcessFailed code (errorOutput s))) s)"

text \<open>The second \<^verbatim>\<open>close\<close> handler.\<close>

definition clearTimeout :: "pv_state \<Rightarrow> pv_state" where
  "clearTimeout s = (if timeout s = Armed then s\<lparr>timeout := Cleared\<rparr> else s)"

fun pv_step :: "runtime \<Rightarrow> pv_state \<Rightarrow> event \<Rightarrow> pv_state \<times> effect list" where
  "pv_step rt s (StdoutData output) =
     (s\<lparr>progressData := fst (onStdoutData rt (progressData s) output)\<rparr>,
      snd (onStdoutData rt (progressData s) output))"
| "pv_step rt s (StderrData output) = (s\<lparr>errorOutput := errorOutput s @ output\<rparr>, [])"
| "pv_step rt s (Close code stat) = (clearTimeout (onClose code stat s), [])"
| "pv_step rt s (ProcError code m) =
     (settle (Rejected (if code = Some ''ENOENT'' then NotInstalled else ProcessError m)) s, [])"
| "pv_step rt s TimerFires =
     (if timeout s = Armed
      then settle (Rejected DownloadTimeout) (s\<lparr>signals := Suc (signals s), timeout := Fired\<rparr>)
      else s, [])"

text \<open>The texts passed to \<^verbatim>\<open>JSON.parse\<close> among the effects of a handler, and the state
  after a sequence of chunks on stdout.\<close>

fun decodeAttempts :: "effect list \<Rightarrow> string list" where
  "decodeAttempts [] = []"
| "decodeAttempts (JsonParse s # es) = s # decodeAttempts es"
| "decodeAttempts (e # es) = decodeAttempts es"

definition feedStdout :: "runtime \<Rightarrow> pv_state \<Rightarrow> string list \<Rightarrow> pv_state" where
  "feedStdout rt s chunks = foldl (\<lambda>s output. fst (pv_step rt s (StdoutData output))) s chunks"

section \<open>routes/api.js: processVideoAsync\<close>

text \<open>\<^verbatim>\<open>Math.round\<close>: the nearest integer, a tie going up.\<close>

fun math_round :: "jsnum \<Rightarrow> jsnum" where
  "math_round (Fin q) = Fin (of_int \<lfloor>q + 1 / 2\<rfloor>)"
| "math_round n = n"

text \<open>\<^verbatim>\<open>x <= y\<close> on numbers.\<close>

fun num_le :: "jsnum \<Rightarrow> jsnum \<Rightarrow> bool" where
  "num_le NaN y = False"
| "num_le x NaN = False"
| "num_le NegInf y = True"
| "num_le x PosInf = True"
| "num_le (Fin a) (Fin b) = (a \<le> b)"
| "num_le x y = False"

text \<open>The three update maps of \<^verbatim>\<open>processVideoAsync\<close>.\<close>

definition processingUpdate :: "jsnum \<Rightarrow> jsobj" where
  "processingUpdate progress =
     [''status'' \<mapsto> Json (JStr ''processing''), ''progress'' \<mapsto> Json (JNum progress)]"

definition completedUpdate :: "string \<Rightarrow> jsobj" where
  "completedUpdate name =
     [''status'' \<mapsto> Json (JStr ''completed''),
      ''progress'' \<mapsto> Json (JNum (Fin 100)),
      ''filename'' \<mapsto> Json (JStr name),
      ''downloadUrl'' \<mapsto> Json (JStr (''/api/download/'' @ name)),
      ''result'' \<mapsto> Json (JObj [(''filename'', JStr name),
                                 (''downloadUrl'', JStr (''/api/download/'' @ name))])]"

definition failedUpdate :: "string \<Rightarrow> jsobj" where
  "failedUpdate m =
     [''status'' \<mapsto> Json (JStr ''failed''),
      ''error'' \<mapsto> Json (JStr m),
      ''result'' \<mapsto> Json (JObj [(''error'', JStr m)])]"

text \<open>The progress callback passed to \<^verbatim>\<open>processVideo\<close>.\<close>

definition progressCallback :: "string \<Rightarrow> int \<Rightarrow> jsnum \<Rightarrow> task_manager \<Rightarrow> task_manager" where
  "progressCallback taskId now progress tm =
     snd (updateTask tm taskId (processingUpdate (math_round progress)) now)"

text \<open>What follows the \<^verbatim>\<open>await\<close>: the update after the promise resolved, or the one
  in the \<^verbatim>\<open>catch\<close>.\<close>

fun report :: "string \<Rightarrow> int \<Rightarrow> outcome \<Rightarrow> task_manager \<Rightarrow> task_manager" where
  "report taskId now (Resolved name path bytes) tm =
     snd (updateTask tm taskId (completedUpdate name) now)"
| "report taskId now (Rejected e) tm =
     snd (updateTask tm taskId (failedUpdate (message e)) now)"

text \<open>
  The state of one \<^verbatim>\<open>processVideoAsync\<close> call: the registry, the state of its
  \<^verbatim>\<open>processVideo\<close> call, and whether the code after the \<^verbatim>\<open>await\<close> has run.
\<close>

record orch_state =
  manager :: task_manager
  proc :: pv_state
  reported :: bool

fun applyEffect :: "string \<Rightarrow> int \<Rightarrow> task_manager \<Rightarrow> effect \<Rightarrow> task_manager" where
  "applyEffect taskId now tm (Callback progress) = progressCallback taskId now progress tm"
| "applyEffect taskId now tm _ = tm"

text \<open>The first statement of \<^verbatim>\<open>processVideoAsync\<close> and the call of \<^verbatim>\<open>processVideo\<close>, up
  to the \<^verbatim>\<open>await\<close>.\<close>

definition processVideoAsync_start ::
    "task_manager \<Rightarrow> string \<Rightarrow> int \<Rightarrow> string \<Rightarrow> string \<Rightarrow> orch_state" where
  "processVideoAsync_start tm taskId now name path =
     \<lparr>manager = snd (updateTask tm taskId (processingUpdate (Fin 0)) now),
      proc = processVideo_spawned name path,
      reported = False\<rparr>"

text \<open>
  One event at clock value \<open>now\<close>: the handler runs, each callback it makes updates the
  registry, and when the handler has settled the promise the code after the \<^verbatim>\<open>await\<close>
  runs before anything else does.
\<close>

definition orch_step :: "runtime \<Rightarrow> string \<Rightarrow> orch_state \<Rightarrow> int \<times> event \<Rightarrow> orch_state" where
  "orch_step rt taskId st timed =
     (let now = fst timed;
          p = fst (pv_step rt (proc st) (snd timed));
          tm = foldl (applyEffect taskId now) (manager st) (snd (pv_step rt (proc st) (snd timed)))
      in case settled p of
           Some out \<Rightarrow>
             if reported st then \<lparr>manager = tm, proc = p, reported = True\<rparr>
             else \<lparr>manager = report taskId now out tm, proc = p, reported = True\<rparr>
         | None \<Rightarrow> \<lparr>manager = tm, proc = p, reported = reported st\<rparr>)"

definition processVideoAsync ::
    "runtime \<Rightarrow> task_manager \<Rightarrow> string \<Rightarrow> int \<Rightarrow> string \<Rightarrow> string \<Rightarrow> (int \<times> event) list
       \<Rightarrow> orch_state" where
  "processVideoAsync rt tm taskId now name path events =
     foldl (orch_step rt taskId) (processVideoAsync_start tm taskId now name path) events"

text \<open>A poll of one property of a task: \<^verbatim>\<open>GET /api/task/:taskId\<close>.\<close>

definition taskField :: "task_manager \<Rightarrow> string \<Rightarrow> string \<Rightarrow> jsval option" where
  "taskField tm taskId name = (case getTask tm taskId of None \<Rightarrow> None | Some task \<Rightarrow> task name)"

section \<open>The update contract\<close>

lemma update_keys_present:
  "map_of al k = Some v0 \<Longrightarrow> map fst (AList.update k v al) = map fst al"
  by (induction al) (auto split: if_splits)

text \<open>
  C6. An update of an id absent from the registry returns false and leaves the whole
  registry as it was: no entry is created and no other record changes. An update of an
  id that is present returns true, stores the merge of the old record and the given
  fields with \<open>updatedAt\<close> set to the current time, keeps the set and order of keys,
  and changes no other record.
\<close>

theorem updateTask_contract:
  "(getTask tm taskId = None \<longrightarrow> updateTask tm taskId updates now = (False, tm)) \<and>
   (\<forall>task. getTask tm taskId = Some task \<longrightarrow>
      fst (updateTask tm taskId updates now) = True \<and>
      getTask (snd (updateTask tm taskId updates now)) taskId =
        Some ((task ++ updates)(''updatedAt'' \<mapsto> IsoTime now)) \<and>
      map fst (tasks (snd (updateTask tm taskId updates now))) = map fst (tasks tm) \<and>
      (\<forall>other. other \<noteq> taskId \<longrightarrow>
         getTask (snd (updateTask tm taskId updates now)) other = getTask tm other))"
  by (auto simp: updateTask_def getTask_def update_conv' update_keys_present)

theorem updateTask_contract_witness:
  "getTask (snd (createTask new_TaskManager ''a'' [''status'' \<mapsto> Json (JStr ''pending'')] 1)) ''b'' = None \<and>
   updateTask (snd (createTask new_TaskManager ''a'' [''status'' \<mapsto> Json (JStr ''pending'')] 1)) ''b''
       [''status'' \<mapsto> Json (JStr ''failed'')] 2
     = (False, snd (createTask new_TaskManager ''a'' [''status'' \<mapsto> Json (JStr ''pending'')] 1)) \<and>
   getTask (snd (createTask new_TaskManager ''a'' [''status'' \<mapsto> Json (JStr ''pending'')] 1)) ''a''
     = Some (newTask ''a'' [''status'' \<mapsto> Json (JStr ''pending'')] 1) \<and>
   fst (updateTask (snd (createTask new_TaskManager ''a'' [''status'' \<mapsto> Json (JStr ''pending'')] 1)) ''a''
       [''status'' \<mapsto> Json (JStr ''failed'')] 2) = True \<and>
   getTask (snd (updateTask (snd (createTask new_TaskManager ''a'' [''status'' \<mapsto> Json (JStr ''pending'')] 1)) ''a''
       [''status'' \<mapsto> Json (JStr ''failed'')] 2)) ''a''
     = Some ((newTask ''a'' [''status'' \<mapsto> Json (JStr ''pending'')] 1 ++ [''status'' \<mapsto> Json (JStr ''failed'')])
              (''updatedAt'' \<mapsto> IsoTime 2))"
proof -
  let ?tm = "snd (createTask new_TaskManager ''a'' [''status'' \<mapsto> Json (JStr ''pending'')] 1)"
  have absent: "getTask ?tm ''b'' = None"
    by (simp add: createTask_def new_TaskManager_def cleanupOldTasks_def getTask_def)
  have present: "getTask ?tm ''a'' = Some (newTask ''a'' [''status'' \<mapsto> Json (JStr ''pending'')] 1)"
    by (simp add: createTask_def new_TaskManager_def cleanupOldTasks_def getTask_def)
  from updateTask_contract [of ?tm "''b''" "[''status'' \<mapsto> Json (JStr ''failed'')]" 2]
       updateTask_contract [of ?tm "''a''" "[''status'' \<mapsto> Json (JStr ''failed'')]" 2]
       absent present
  show ?thesis by simp
qed

text \<open>
  C9. For an id that is present, \<open>updateTask\<close> replaces the stored record by the merge
  of the old record and the update, with a fresh \<open>updatedAt\<close>, whatever the status of
  the old record. In particular the update that the progress callback of
  \<^verbatim>\<open>routes/api.js\<close> issues, \<^verbatim>\<open>{status: 'processing', progress}\<close>, applied to a record
  whose status is completed or failed, yields a record whose status is processing:
  the registry has no state-machine guard.
\<close>

theorem updateTask_no_status_guard:
  "(\<forall>task. getTask tm taskId = Some task \<longrightarrow>
      updateTask tm taskId updates now =
        (True, tm\<lparr>tasks := AList.update taskId
                   ((task ++ updates)(''updatedAt'' \<mapsto> IsoTime now)) (tasks tm)\<rparr>)) \<and>
   (\<forall>task task'. getTask tm taskId = Some task \<longrightarrow>
      (task ''status'' = Some (Json (JStr ''completed'')) \<or>
       task ''status'' = Some (Json (JStr ''failed''))) \<longrightarrow>
      getTask (snd (updateTask tm taskId
         [''status'' \<mapsto> Json (JStr ''processing''), ''progress'' \<mapsto> Json (JNum p)] now)) taskId
        = Some task' \<longrightarrow>
      task' ''status'' = Some (Json (JStr ''processing'')))"
  by (auto simp: updateTask_def getTask_def update_conv')

theorem updateTask_no_status_guard_witness:
  "getTask (snd (updateTask (snd (createTask new_TaskManager ''a'' [''status'' \<mapsto> Json (JStr ''pending'')] 1))
       ''a'' [''status'' \<mapsto> Json (JStr ''completed'')] 2)) ''a''
     = Some ((newTask ''a'' [''status'' \<mapsto> Json (JStr ''pending'')] 1
               ++ [''status'' \<mapsto> Json (JStr ''completed'')])(''updatedAt'' \<mapsto> IsoTime 2)) \<and>
   ((newTask ''a'' [''status'' \<mapsto> Json (JStr ''pending'')] 1
      ++ [''status'' \<mapsto> Json (JStr ''completed'')])(''updatedAt'' \<mapsto> IsoTime 2)) ''status''
     = Some (Json (JStr ''completed'')) \<and>
   (\<exists>task'. getTask (snd (updateTask
        (snd (updateTask (snd (createTask new_TaskManager ''a'' [''status'' \<mapsto> Json (JStr ''pending'')] 1))
           ''a'' [''status'' \<mapsto> Json (JStr ''completed'')] 2))
        ''a'' [''status'' \<mapsto> Json (JStr ''processing''), ''progress'' \<mapsto> Json (JNum (Fin 40))] 3)) ''a''
      = Some task' \<and> task' ''status'' = Some (Json (JStr ''processing'')))"
proof -
  let ?tm0 = "snd (createTask new_TaskManager ''a'' [''status'' \<mapsto> Json (JStr ''pending'')] 1)"
  let ?tm = "snd (updateTask ?tm0 ''a'' [''status'' \<mapsto> Json (JStr ''completed'')] 2)"
  let ?done = "(newTask ''a'' [''status'' \<mapsto> Json (JStr ''pending'')] 1
                 ++ [''status'' \<mapsto> Json (JStr ''completed'')])(''updatedAt'' \<mapsto> IsoTime 2)"
  have present: "getTask ?tm ''a'' = Some ?done"
    by (simp add: createTask_def new_TaskManager_def cleanupOldTasks_def getTask_def updateTask_def)
  have completed: "?done ''status'' = Some (Json (JStr ''completed''))"
    by simp
  have stored: "\<exists>task'. getTask (snd (updateTask ?tm ''a''
      [''status'' \<mapsto> Json (JStr ''processing''), ''progress'' \<mapsto> Json (JNum (Fin 40))] 3)) ''a'' = Some task'"
    by (simp add: createTask_def new_TaskManager_def cleanupOldTasks_def getTask_def updateTask_def)
  from updateTask_no_status_guard [of ?tm "''a''" "[''status'' \<mapsto> Json (JStr ''completed'')]" 3 "Fin 40"]
       present completed stored
  show ?thesis by blast
qed

section \<open>Bounded-size eviction\<close>

lemma js_sort_sorted:
  "sorted_wrt (\<lambda>a b. \<not> positive (cmp a b)) xs \<Longrightarrow> js_sort cmp xs = xs"
proof (induction xs)
  case Nil
  then show ?case by simp
next
  case (Cons x xs)
  then have "js_sort cmp xs = xs" by simp
  moreover have "js_insert cmp x xs = x # xs"
    using Cons.prems by (cases xs) auto
  ultimately show ?case by simp
qed

lemma update_fresh:
  "k \<notin> fst ` set al \<Longrightarrow> AList.update k v al = al @ [(k, v)]"
  by (induction al) auto

lemma delete_oldest:
  assumes "distinct (map fst ts)"
    and "\<forall>(k, t) \<in> set ts. t ''taskId'' = Some (Json (JStr k))"
  shows "foldl (\<lambda>ts task. deleteKey (task ''taskId'') ts) ts (map snd (take j ts)) = drop j ts"
  using assms
proof (induction ts arbitrary: j)
  case Nil
  then show ?case by simp
next
  case (Cons e ts)
  show ?case
  proof (cases j)
    case 0
    then show ?thesis by simp
  next
    case (Suc j')
    obtain k t where e: "e = (k, t)" by (cases e)
    have tid: "t ''taskId'' = Some (Json (JStr k))" using Cons.prems(2) e by simp
    have fresh: "k \<notin> fst ` set ts" using Cons.prems(1) e by simp
    have "deleteKey (t ''taskId'') (e # ts) = ts"
      using tid e fresh by (simp add: AList.delete_id)
    moreover have "foldl (\<lambda>ts task. deleteKey (task ''taskId'') ts) ts (map snd (take j' ts)) = drop j' ts"
      using Cons.IH [of j'] Cons.prems by simp
    ultimately show ?thesis using Suc e by simp
  qed
qed

lemma cleanupOldTasks_drop:
  assumes "distinct (map fst (tasks tm))"
    and "\<forall>(k, t) \<in> set (tasks tm). t ''taskId'' = Some (Json (JStr k))"
    and "sorted_wrt (\<lambda>a b. \<not> positive (byCreatedAt a b)) (map snd (tasks tm))"
  shows "tasks (cleanupOldTasks tm) = drop (length (tasks tm) - maxTasks tm) (tasks tm)"
    and "maxTasks (cleanupOldTasks tm) = maxTasks tm"
proof -
  have "js_sort byCreatedAt (map snd (tasks tm)) = map snd (tasks tm)"
    using assms(3) by (rule js_sort_sorted)
  then show "tasks (cleanupOldTasks tm) = drop (length (tasks tm) - maxTasks tm) (tasks tm)"
    using delete_oldest [OF assms(1,2), of "length (tasks tm) - maxTasks tm"]
    by (simp add: cleanupOldTasks_def Let_def take_map)
  show "maxTasks (cleanupOldTasks tm) = maxTasks tm"
    by (simp add: cleanupOldTasks_def Let_def)
qed

lemma createTasks_snoc:
  "createTasks tm (cs @ [(taskId, taskData, now)]) =
     snd (createTask (createTasks tm cs) taskId taskData now)"
  by (induction tm cs rule: createTasks.induct) auto

lemma byCreatedAt_newTask:
  "positive (byCreatedAt (newTask i d t) (newTask i' d' t')) \<longleftrightarrow> t' < t"
  by (simp add: byCreatedAt_def newTask_def)

lemma created_sorted:
  "sorted (map (\<lambda>c. snd (snd c)) cs) \<Longrightarrow>
   sorted_wrt (\<lambda>a b. \<not> positive (byCreatedAt a b)) (map (\<lambda>c. snd (created c)) cs)"
proof (induction cs)
  case Nil
  then show ?case by simp
next
  case (Cons c cs)
  then show ?case
    by (auto simp: created_def byCreatedAt_newTask split: prod.splits)
qed

lemma created_taskId:
  "\<forall>c \<in> set cs. fst (snd c) ''taskId'' = None \<Longrightarrow>
   \<forall>(k, t) \<in> set (map created cs). t ''taskId'' = Some (Json (JStr k))"
  by (auto simp: created_def newTask_def map_add_def split: prod.splits)

lemma fst_created: "fst (created c) = fst c"
  by (simp add: created_def split: prod.splits)

lemma keys_created: "map fst (map created cs) = map fst cs"
  by (simp add: fst_created)

lemma createTasks_keeps_newest:
  assumes "tasks tm = []"
    and "distinct (map fst cs)"
    and "sorted (map (\<lambda>c. snd (snd c)) cs)"
    and "\<forall>c \<in> set cs. fst (snd c) ''taskId'' = None"
  shows "tasks (createTasks tm cs) = drop (length cs - maxTasks tm) (map created cs) \<and>
         maxTasks (createTasks tm cs) = maxTasks tm"
  using assms(2,3,4)
proof (induction cs rule: rev_induct)
  case Nil
  then show ?case using assms(1) by simp
next
  case (snoc c cs)
  obtain i d t where c: "c = (i, d, t)" by (cases c)
  let ?M = "maxTasks tm"
  let ?tm = "createTasks tm cs"
  let ?all = "map created (cs @ [c])"
  have IH: "tasks ?tm = drop (length cs - ?M) (map created cs)" "maxTasks ?tm = ?M"
    using snoc by (auto simp: sorted_append)
  have keys: "map fst (map created cs) = map fst cs"
    by (rule keys_created)
  have "i \<notin> set (map fst cs)" using snoc.prems(1) c by simp
  then have "i \<notin> fst ` set (map created cs)"
    using keys by (metis list.set_map)
  then have fresh: "i \<notin> fst ` set (tasks ?tm)"
    using IH(1) by (metis image_mono in_mono set_drop_subset)
  let ?tm1 = "?tm\<lparr>tasks := AList.update i (newTask i d t) (tasks ?tm)\<rparr>"
  have t1: "tasks ?tm1 = drop (length cs - ?M) ?all"
    using fresh IH(1) c by (simp add: update_fresh created_def)
  have dist_all: "distinct (map fst ?all)"
    using snoc.prems(1) unfolding keys_created .
  have "distinct (drop (length cs - ?M) (map fst ?all))"
    using dist_all by (rule distinct_drop)
  then have d1: "distinct (map fst (tasks ?tm1))"
    by (simp only: t1 drop_map)
  have tid_all: "\<forall>(k, t) \<in> set ?all. t ''taskId'' = Some (Json (JStr k))"
    using created_taskId [OF snoc.prems(3)] .
  have tid1: "\<forall>(k, t) \<in> set (tasks ?tm1). t ''taskId'' = Some (Json (JStr k))"
    unfolding t1 using tid_all by (meson in_set_dropD)
  have "sorted_wrt (\<lambda>a b. \<not> positive (byCreatedAt a b)) (map snd ?all)"
    using created_sorted [OF snoc.prems(2)] by (simp add: comp_def)
  then have "sorted_wrt (\<lambda>a b. \<not> positive (byCreatedAt a b)) (drop (length cs - ?M) (map snd ?all))"
    by (rule sorted_wrt_drop)
  then have s1: "sorted_wrt (\<lambda>a b. \<not> positive (byCreatedAt a b)) (map snd (tasks ?tm1))"
    by (simp only: t1 drop_map)
  have len1: "length (tasks ?tm1) = length cs - (length cs - ?M) + 1"
    unfolding t1 by simp
  have "tasks (cleanupOldTasks ?tm1) = drop (length (tasks ?tm1) - maxTasks ?tm1) (tasks ?tm1)"
    using cleanupOldTasks_drop(1) [OF d1 tid1 s1] .
  also have "\<dots> = drop (length (tasks ?tm1) - ?M + (length cs - ?M)) ?all"
    using IH(2) by (simp only: t1 drop_drop) simp
  also have "length (tasks ?tm1) - ?M + (length cs - ?M) = length (cs @ [c]) - ?M"
    using len1 by simp
  finally have "tasks (cleanupOldTasks ?tm1) = drop (length (cs @ [c]) - ?M) ?all" .
  moreover have "maxTasks (cleanupOldTasks ?tm1) = ?M"
    using cleanupOldTasks_drop(2) [OF d1 tid1 s1] IH(2) by simp
  ultimately show ?case
    unfolding c createTasks_snoc by (simp add: createTask_def)
qed

text \<open>
  C5. Starting from an empty registry, let \<open>maxTasks + k\<close> tasks be created, with
  pairwise distinct identifiers, at non-decreasing clock values, from task data of any
  content (any status, processing included) that has no \<open>taskId\<close> property of its
  own. Then the registry holds exactly \<open>maxTasks\<close> entries: the entries of the last
  \<open>maxTasks\<close> calls, in creation order; the first \<open>k\<close> created tasks are gone.
\<close>

theorem eviction_keeps_newest:
  assumes "tasks tm = []"
    and "distinct (map fst cs)"
    and "sorted (map (\<lambda>c. snd (snd c)) cs)"
    and "\<forall>c \<in> set cs. fst (snd c) ''taskId'' = None"
    and "length cs = maxTasks tm + k"
  shows "length (tasks (createTasks tm cs)) = maxTasks tm \<and>
         tasks (createTasks tm cs) = drop k (map created cs) \<and>
         map fst (tasks (createTasks tm cs)) = drop k (map fst cs) \<and>
         (\<forall>i \<in> set (take k (map fst cs)). getTask (createTasks tm cs) i = None)"
proof -
  have k: "length cs - maxTasks tm = k" using assms(5) by simp
  have ts: "tasks (createTasks tm cs) = drop k (map created cs)"
    using createTasks_keeps_newest [OF assms(1-4)] k by simp
  have len: "length (tasks (createTasks tm cs)) = maxTasks tm"
    using ts assms(5) by simp
  have keys: "map fst (tasks (createTasks tm cs)) = drop k (map fst cs)"
    using ts by (simp only: drop_map keys_created)
  have "distinct (take k (map fst cs) @ drop k (map fst cs))"
    using assms(2) by simp
  then have "set (take k (map fst cs)) \<inter> set (drop k (map fst cs)) = {}"
    by (simp only: distinct_append)
  then have "\<forall>i \<in> set (take k (map fst cs)). i \<notin> fst ` set (tasks (createTasks tm cs))"
    using keys by (metis disjoint_iff list.set_map)
  then have gone: "\<forall>i \<in> set (take k (map fst cs)). getTask (createTasks tm cs) i = None"
    by (simp add: getTask_def map_of_eq_None_iff)
  from len ts keys gone show ?thesis by blast
qed

theorem eviction_keeps_newest_witness:
  "tasks (new_TaskManager\<lparr>maxTasks := 2\<rparr>) = [] \<and>
   distinct (map fst
     [(''a'', [''status'' \<mapsto> Json (JStr ''processing'')], 1),
      (''b'', [''status'' \<mapsto> Json (JStr ''pending'')], 2),
      (''c'', [''status'' \<mapsto> Json (JStr ''pending'')], 2 :: int)]) \<and>
   tasks (createTasks (new_TaskManager\<lparr>maxTasks := 2\<rparr>)
     [(''a'', [''status'' \<mapsto> Json (JStr ''processing'')], 1),
      (''b'', [''status'' \<mapsto> Json (JStr ''pending'')], 2),
      (''c'', [''status'' \<mapsto> Json (JStr ''pending'')], 2)])
     = [(''b'', newTask ''b'' [''status'' \<mapsto> Json (JStr ''pending'')] 2),
        (''c'', newTask ''c'' [''status'' \<mapsto> Json (JStr ''pending'')] 2)] \<and>
   getTask (createTasks (new_TaskManager\<lparr>maxTasks := 2\<rparr>)
     [(''a'', [''status'' \<mapsto> Json (JStr ''processing'')], 1),
      (''b'', [''status'' \<mapsto> Json (JStr ''pending'')], 2),
      (''c'', [''status'' \<mapsto> Json (JStr ''pending'')], 2)]) ''a'' = None"
  using eviction_keeps_newest [of "new_TaskManager\<lparr>maxTasks := 2\<rparr>"
     "[(''a'', [''status'' \<mapsto> Json (JStr ''processing'')], 1),
       (''b'', [''status'' \<mapsto> Json (JStr ''pending'')], 2),
       (''c'', [''status'' \<mapsto> Json (JStr ''pending'')], 2)]" 1]
  by (simp add: new_TaskManager_def created_def)

section \<open>The progress parser\<close>

text \<open>
  C2, as the code has it. For a decoded payload, the parser calls the progress callback
  exactly when the payload is not \<^verbatim>\<open>null\<close>, its status is the string \<^verbatim>\<open>downloading\<close>, its
  percent field is truthy and \<^verbatim>\<open>parseFloat\<close> of that field is not NaN; the value passed is
  that number. A field that parses to NaN is ignored. There is no check of the range:
  every non-zero finite number in the percent field is passed on as it is.
\<close>

theorem handleProgressInfo_emits:
  "(handleProgressInfo rt info = Some [Callback p] \<longleftrightarrow>
      info \<noteq> JNull \<and>
      json_get info ''status'' = Some (JStr ''downloading'') \<and>
      truthy (json_get info ''percent'') \<and>
      parseFloat (parseFloat_string rt) (json_get info ''percent'') = p \<and> p \<noteq> NaN) \<and>
   (handleProgressInfo rt info = None \<or> handleProgressInfo rt info = Some [] \<or>
      (\<exists>p. handleProgressInfo rt info = Some [Callback p])) \<and>
   (q \<noteq> 0 \<longrightarrow>
      handleProgressInfo rt (JObj [(''status'', JStr ''downloading''), (''percent'', JNum (Fin q))])
        = Some [Callback (Fin q)])"
  by (auto simp: handleProgressInfo_def Let_def)

theorem handleProgressInfo_emits_witness:
  "(- 5 :: rat) \<noteq> 0 \<and>
   (\<forall>rt. handleProgressInfo rt
      (JObj [(''status'', JStr ''downloading''), (''percent'', JNum (Fin (- 5)))])
     = Some [Callback (Fin (- 5))])"
  using handleProgressInfo_emits
    [of _ "JObj [(''status'', JStr ''downloading''), (''percent'', JNum (Fin (- 5)))]" "Fin (- 5)" "- 5"]
  by simp

text \<open>The payload \<^verbatim>\<open>{"status": "downloading", "percent": 150}\<close> reaches the callback
  with the value 150, which is outside [0,100].\<close>

theorem out_of_range_emitted:
  "\<forall>rt. handleProgressInfo rt
      (JObj [(''status'', JStr ''downloading''), (''percent'', JNum (Fin 150))])
     = Some [Callback (Fin 150)]"
  by (simp add: handleProgressInfo_def)

text \<open>
  C10, as the code has it. A non-blank line that decodes to a payload with status
  \<^verbatim>\<open>downloading\<close> whose percent field is absent or the number 0 makes no call of the
  progress callback: the field is falsy, and the only thing done with the line is the
  decode. The value 0 is passed to the callback all the same for a payload whose
  percent field is truthy and read as 0 by \<^verbatim>\<open>parseFloat\<close>, and for no other payload.
\<close>

theorem falsy_percent_not_emitted:
  "(trim line \<noteq> [] \<and> JSON_parse rt (trim line) = Some info \<and>
    json_get info ''status'' = Some (JStr ''downloading'') \<and>
    (json_get info ''percent'' = None \<or> json_get info ''percent'' = Some (JNum (Fin 0))) \<longrightarrow>
      \<not> truthy (json_get info ''percent'') \<and>
      handleProgressInfo rt info = Some [] \<and>
      processLine rt line = [JsonParse (trim line)] \<and>
      (\<forall>p. Callback p \<notin> set (processLine rt line))) \<and>
   (handleProgressInfo rt payload = Some [Callback (Fin 0)] \<longleftrightarrow>
      payload \<noteq> JNull \<and>
      json_get payload ''status'' = Some (JStr ''downloading'') \<and>
      truthy (json_get payload ''percent'') \<and>
      parseFloat (parseFloat_string rt) (json_get payload ''percent'') = Fin 0)"
proof -
  have falsy: "\<not> truthy (json_get info ''percent'') \<and>
      handleProgressInfo rt info = Some [] \<and>
      processLine rt line = [JsonParse (trim line)] \<and>
      (\<forall>p. Callback p \<notin> set (processLine rt line))"
    if "trim line \<noteq> []" and "JSON_parse rt (trim line) = Some info"
      and "json_get info ''status'' = Some (JStr ''downloading'')"
      and "json_get info ''percent'' = None \<or> json_get info ''percent'' = Some (JNum (Fin 0))"
    using that by (auto simp: processLine_def handleProgressInfo_def)
  have zero: "handleProgressInfo rt payload = Some [Callback (Fin 0)] \<longleftrightarrow>
      payload \<noteq> JNull \<and>
      json_get payload ''status'' = Some (JStr ''downloading'') \<and>
      truthy (json_get payload ''percent'') \<and>
      parseFloat (parseFloat_string rt) (json_get payload ''percent'') = Fin 0"
    by (auto simp: handleProgressInfo_def Let_def)
  show ?thesis using falsy zero by blast
qed

theorem falsy_percent_not_emitted_witness:
  \<open>trim '' {"status":"downloading","percent":0}'' \<noteq> [] \<and>
   processLine
     \<lparr>JSON_parse = (\<lambda>s. if s = ''{"status":"downloading","percent":0}''
                          then Some (JObj [(''status'', JStr ''downloading''), (''percent'', JNum (Fin 0))])
                          else None),
      parseFloat_string = (\<lambda>s. NaN)\<rparr>
     '' {"status":"downloading","percent":0}''
     = [JsonParse ''{"status":"downloading","percent":0}'']\<close>
proof -
  have t: \<open>trim '' {"status":"downloading","percent":0}'' = ''{"status":"downloading","percent":0}''\<close>
    by (simp add: trim_def is_space_def)
  show ?thesis
    using falsy_percent_not_emitted [of \<open>'' {"status":"downloading","percent":0}''\<close>
      \<open>\<lparr>JSON_parse = (\<lambda>s. if s = ''{"status":"downloading","percent":0}''
                          then Some (JObj [(''status'', JStr ''downloading''), (''percent'', JNum (Fin 0))])
                          else None),
      parseFloat_string = (\<lambda>s. NaN)\<rparr>\<close>
      \<open>JObj [(''status'', JStr ''downloading''), (''percent'', JNum (Fin 0))]\<close>]
    by (simp add: t)
qed

text \<open>The payload \<^verbatim>\<open>{"status": "downloading", "percent": [0]}\<close>: the array is truthy and
  \<^verbatim>\<open>parseFloat([0])\<close> is 0, so the callback is called with the value 0. The same holds
  for the string \<^verbatim>\<open>"0"\<close> in the percent field.\<close>

theorem zero_emitted_for_truthy_field:
  "\<forall>rt. handleProgressInfo rt
      (JObj [(''status'', JStr ''downloading''), (''percent'', JArr [JNum (Fin 0)])])
     = Some [Callback (Fin 0)]"
  by (simp add: handleProgressInfo_def)

section \<open>Progress signals and the registry\<close>

lemma floor_half_int: "\<lfloor>of_int n + (1::rat) / 2\<rfloor> = n"
  by (simp add: floor_unique)

lemma math_round_numeral: "math_round (Fin (numeral k)) = Fin (numeral k)"
  using floor_half_int [of "numeral k"] by simp

lemma math_round_mono: "num_le p q \<Longrightarrow> num_le (math_round p) (math_round q)"
  by (cases p; cases q) (auto intro: floor_mono)

lemma taskField_updateTask:
  "taskField (snd (updateTask tm taskId updates now)) taskId name =
     (case getTask tm taskId of
        None \<Rightarrow> None
      | Some task \<Rightarrow> ((task ++ updates)(''updatedAt'' \<mapsto> IsoTime now)) name)"
  by (simp add: taskField_def updateTask_def getTask_def update_conv' split: option.splits)

text \<open>
  C4, as the code has it. While a task is in the registry, every progress signal is
  applied to its record: after the callback the status is processing and the progress
  is the rounded signal, whatever the progress was before; a smaller signal is applied
  like any other, none is dropped. Whenever the later of two signals is at least the
  earlier one, the progress read after it is at least the progress read before.
\<close>

theorem progress_signal_applied:
  assumes "getTask tm taskId = Some task"
  shows "taskField (progressCallback taskId now p tm) taskId ''status''
           = Some (Json (JStr ''processing'')) \<and>
         taskField (progressCallback taskId now p tm) taskId ''progress''
           = Some (Json (JNum (math_round p))) \<and>
         taskField (progressCallback taskId now' q (progressCallback taskId now p tm)) taskId ''progress''
           = Some (Json (JNum (math_round q))) \<and>
         (num_le p q \<longrightarrow> num_le (math_round p) (math_round q))"
proof -
  have one: "\<And>tm' t n x. getTask tm' taskId = Some t \<Longrightarrow>
      taskField (progressCallback taskId n x tm') taskId ''progress'' = Some (Json (JNum (math_round x))) \<and>
      taskField (progressCallback taskId n x tm') taskId ''status'' = Some (Json (JStr ''processing'')) \<and>
      getTask (progressCallback taskId n x tm') taskId \<noteq> None"
    by (simp add: progressCallback_def taskField_updateTask processingUpdate_def)
       (simp add: updateTask_def getTask_def update_conv')
  obtain t' where "getTask (progressCallback taskId now p tm) taskId = Some t'"
    using one [OF assms] by blast
  then show ?thesis
    using one [OF assms, of now p] one [of "progressCallback taskId now p tm" t' now' q] math_round_mono
    by blast
qed

theorem progress_signal_applied_witness:
  "getTask (snd (createTask new_TaskManager ''a'' [''status'' \<mapsto> Json (JStr ''pending'')] 1)) ''a''
     = Some (newTask ''a'' [''status'' \<mapsto> Json (JStr ''pending'')] 1) \<and>
   taskField (progressCallback ''a'' 3 (Fin 70) (progressCallback ''a'' 2 (Fin 20)
      (snd (createTask new_TaskManager ''a'' [''status'' \<mapsto> Json (JStr ''pending'')] 1))))
      ''a'' ''progress'' = Some (Json (JNum (Fin 70))) \<and>
   num_le (Fin 20) (Fin 70) \<and> num_le (math_round (Fin 20)) (math_round (Fin 70))"
proof -
  have present:
    "getTask (snd (createTask new_TaskManager ''a'' [''status'' \<mapsto> Json (JStr ''pending'')] 1)) ''a''
       = Some (newTask ''a'' [''status'' \<mapsto> Json (JStr ''pending'')] 1)"
    by (simp add: createTask_def new_TaskManager_def cleanupOldTasks_def getTask_def)
  show ?thesis
    using progress_signal_applied [OF present, of 2 "Fin 20" 3 "Fin 70"] present
    by (simp add: math_round_numeral del: math_round.simps)
qed

text \<open>A task at progress 50 that receives the signal 30 is at progress 30 afterwards,
  still with status processing.\<close>

theorem smaller_signal_applied:
  "taskField (progressCallback ''a'' 2 (Fin 50)
      (snd (createTask new_TaskManager ''a'' [''status'' \<mapsto> Json (JStr ''pending'')] 1)))
      ''a'' ''progress'' = Some (Json (JNum (Fin 50))) \<and>
   taskField (progressCallback ''a'' 2 (Fin 50)
      (snd (createTask new_TaskManager ''a'' [''status'' \<mapsto> Json (JStr ''pending'')] 1)))
      ''a'' ''status'' = Some (Json (JStr ''processing'')) \<and>
   taskField (progressCallback ''a'' 3 (Fin 30) (progressCallback ''a'' 2 (Fin 50)
      (snd (createTask new_TaskManager ''a'' [''status'' \<mapsto> Json (JStr ''pending'')] 1))))
      ''a'' ''progress'' = Some (Json (JNum (Fin 30))) \<and>
   taskField (progressCallback ''a'' 3 (Fin 30) (progressCallback ''a'' 2 (Fin 50)
      (snd (createTask new_TaskManager ''a'' [''status'' \<mapsto> Json (JStr ''pending'')] 1))))
      ''a'' ''status'' = Some (Json (JStr ''processing''))"
  by (simp add: taskField_def progressCallback_def updateTask_def getTask_def createTask_def
      cleanupOldTasks_def new_TaskManager_def newTask_def processingUpdate_def
      math_round_numeral del: math_round.simps)

section \<open>Line buffering of the progress parser\<close>

lemma decodeAttempts_append:
  "decodeAttempts (xs @ ys) = decodeAttempts xs @ decodeAttempts ys"
  by (induction xs rule: decodeAttempts.induct) simp_all

lemma decodeAttempts_processLine:
  "decodeAttempts (processLine rt line) = (if trim line = [] then [] else [trim line])"
  by (auto simp: processLine_def handleProgressInfo_def Let_def split: option.splits)

lemma decodeAttempts_lines:
  "decodeAttempts (concat (map (processLine rt) ls)) = filter (\<lambda>l. l \<noteq> []) (map trim ls)"
  by (induction ls) (simp_all add: decodeAttempts_append decodeAttempts_processLine)

lemma feedStdout_buffer:
  "progressData (feedStdout rt s chunks) = progressData s @ concat chunks \<and>
   settled (feedStdout rt s chunks) = settled s \<and>
   timeout (feedStdout rt s chunks) = timeout s"
  unfolding feedStdout_def
  by (induction chunks arbitrary: s) (simp_all add: onStdoutData_def)

text \<open>
  C3, as the code has it. For every sequence of chunks, the buffer holds all text
  received, so a line cut by a chunk boundary is whole in the buffer once its end has
  arrived. With each chunk the handler passes to \<^verbatim>\<open>JSON.parse\<close> every non-blank trimmed
  line of the buffer, which includes the text after the last newline when it is not
  blank. A non-blank line that fails to decode is logged and nothing else: no callback
  is made, and no chunk on stdout settles the promise.
\<close>

theorem stdout_line_buffering:
  "progressData (feedStdout rt s chunks) = progressData s @ concat chunks \<and>
   decodeAttempts (snd (pv_step rt (feedStdout rt s chunks) (StdoutData output)))
     = filter (\<lambda>l. l \<noteq> []) (map trim (split_newline (progressData s @ concat chunks @ output))) \<and>
   (trim line \<noteq> [] \<and> JSON_parse rt (trim line) = None \<longrightarrow>
      processLine rt line = [JsonParse (trim line), ConsoleLog (trim line)]) \<and>
   settled (fst (pv_step rt s (StdoutData output))) = settled s"
  by (simp add: feedStdout_buffer onStdoutData_def decodeAttempts_lines processLine_def)

theorem stdout_line_buffering_witness:
  \<open>trim ''WARNING: slow '' \<noteq> [] \<and>
   processLine \<lparr>JSON_parse = (\<lambda>s. None), parseFloat_string = (\<lambda>s. NaN)\<rparr> ''WARNING: slow ''
     = [JsonParse ''WARNING: slow'', ConsoleLog ''WARNING: slow''] \<and>
   (\<forall>rt. decodeAttempts (snd (pv_step rt
       (feedStdout rt (processVideo_spawned ''video.mp4'' ''/downloads/video.mp4'') [''{"a":'', ''1}''])
       (StdoutData [CHR 0x0A])))
     = [''{"a":1}''])\<close>
proof -
  have t: "trim ''WARNING: slow '' = ''WARNING: slow''"
    by (simp add: trim_def is_space_def)
  have t2: \<open>trim ''{"a":1}'' = ''{"a":1}''\<close> "trim [] = []"
    by (simp_all add: trim_def is_space_def)
  have l: \<open>decodeAttempts (snd (pv_step rt
       (feedStdout rt (processVideo_spawned ''video.mp4'' ''/downloads/video.mp4'') [''{"a":'', ''1}''])
       (StdoutData [CHR 0x0A])))
     = [''{"a":1}'']\<close> for rt
  proof -
    let ?s = "processVideo_spawned ''video.mp4'' ''/downloads/video.mp4''"
    have \<open>decodeAttempts (snd (pv_step rt (feedStdout rt ?s [''{"a":'', ''1}'']) (StdoutData [CHR 0x0A])))
            = filter (\<lambda>l. l \<noteq> [])
                (map trim (split_newline (progressData ?s @ concat [''{"a":'', ''1}''] @ [CHR 0x0A])))\<close>
      using stdout_line_buffering [of rt ?s \<open>[''{"a":'', ''1}'']\<close> "[CHR 0x0A]"] by blast
    also have \<open>\<dots> = [''{"a":1}'']\<close>
      by (simp add: processVideo_spawned_def t2)
    finally show ?thesis .
  qed
  show ?thesis
    using stdout_line_buffering [of "\<lparr>JSON_parse = (\<lambda>s. None), parseFloat_string = (\<lambda>s. NaN)\<rparr>" _ _ _
        "''WARNING: slow ''"] l
    by (simp add: t)
qed

text \<open>The first chunk of a run ends in the middle of a line; the handler passes the
  unterminated text to \<^verbatim>\<open>JSON.parse\<close>.\<close>

theorem fragment_decoded:
  \<open>\<forall>rt. decodeAttempts (snd (pv_step rt (processVideo_spawned ''video.mp4'' ''/downloads/video.mp4'')
            (StdoutData ''{"status":"downl''))) = [''{"status":"downl'']\<close>
  by (simp add: processVideo_spawned_def onStdoutData_def decodeAttempts_processLine trim_def is_space_def)

section \<open>The orchestrator\<close>

subsection \<open>Steps of processVideo\<close>

lemma pv_step_output:
  "is_output e \<Longrightarrow>
     settled (fst (pv_step rt s e)) = settled s \<and> timeout (fst (pv_step rt s e)) = timeout s \<and>
     signals (fst (pv_step rt s e)) = signals s \<and> filename (fst (pv_step rt s e)) = filename s \<and>
     outputPath (fst (pv_step rt s e)) = outputPath s"
  by (cases e) simp_all

lemma pv_step_settled:
  "settled s = Some out \<Longrightarrow> settled (fst (pv_step rt s e)) = Some out"
  by (cases e) (simp_all add: settle_def onClose_def clearTimeout_def split: stat_result.splits)

lemma pv_step_resolved:
  "settled (fst (pv_step rt s e)) = Some (Resolved a b n) \<Longrightarrow>
     settled s = Some (Resolved a b n) \<or> (\<exists>c. e = Close (Some 0) (StatOk c) \<and> 0 < c)"
  by (cases e)
     (auto simp: settle_def onClose_def clearTimeout_def split: stat_result.splits if_splits)

lemma pv_step_timeout:
  "timeout (fst (pv_step rt s e)) =
     (if timeout s = Armed
      then (case e of TimerFires \<Rightarrow> Fired | Close c st \<Rightarrow> Cleared | _ \<Rightarrow> Armed)
      else timeout s)"
  by (cases e) (auto simp: settle_def onClose_def clearTimeout_def split: stat_result.splits)

lemma pv_step_signals:
  "signals (fst (pv_step rt s e)) =
     (if e = TimerFires \<and> timeout s = Armed then Suc (signals s) else signals s)"
  by (cases e) (auto simp: settle_def onClose_def clearTimeout_def split: stat_result.splits)

subsection \<open>Steps of processVideoAsync\<close>

lemma proc_orch_step: "proc (orch_step rt taskId st te) = fst (pv_step rt (proc st) (snd te))"
  by (simp add: orch_step_def Let_def split: option.splits)

lemma reported_orch_step:
  "reported (orch_step rt taskId st te) \<longleftrightarrow>
     reported st \<or> settled (fst (pv_step rt (proc st) (snd te))) \<noteq> None"
  by (auto simp: orch_step_def Let_def split: option.splits)

lemma manager_orch_step:
  "manager (orch_step rt taskId st te) =
     (case settled (fst (pv_step rt (proc st) (snd te))) of
        Some out \<Rightarrow>
          if reported st
          then foldl (applyEffect taskId (fst te)) (manager st) (snd (pv_step rt (proc st) (snd te)))
          else report taskId (fst te) out
                 (foldl (applyEffect taskId (fst te)) (manager st) (snd (pv_step rt (proc st) (snd te))))
      | None \<Rightarrow> foldl (applyEffect taskId (fst te)) (manager st) (snd (pv_step rt (proc st) (snd te))))"
  by (simp add: orch_step_def Let_def split: option.splits)

lemma getTask_updateTask_present:
  "(\<exists>t. getTask tm taskId = Some t) \<Longrightarrow> (\<exists>t. getTask (snd (updateTask tm taskId u now)) taskId = Some t)"
  by (auto simp: updateTask_def getTask_def update_conv')

lemma applyEffect_present:
  "(\<exists>t. getTask tm taskId = Some t) \<Longrightarrow> (\<exists>t. getTask (applyEffect taskId now tm e) taskId = Some t)"
  by (cases e) (simp_all add: progressCallback_def getTask_updateTask_present)

lemma applyEffects_present:
  "(\<exists>t. getTask tm taskId = Some t) \<Longrightarrow> (\<exists>t. getTask (foldl (applyEffect taskId now) tm es) taskId = Some t)"
  by (induction es arbitrary: tm) (simp_all add: applyEffect_present)

lemma report_present:
  "(\<exists>t. getTask tm taskId = Some t) \<Longrightarrow> (\<exists>t. getTask (report taskId now out tm) taskId = Some t)"
  by (cases out) (simp_all add: getTask_updateTask_present)

lemma orch_step_present:
  "(\<exists>t. getTask (manager st) taskId = Some t) \<Longrightarrow> (\<exists>t. getTask (manager (orch_step rt taskId st te)) taskId = Some t)"
  by (simp add: manager_orch_step applyEffects_present report_present split: option.splits)

lemma run_present:
  "(\<exists>t. getTask (manager st) taskId = Some t) \<Longrightarrow>
   (\<exists>t. getTask (manager (foldl (orch_step rt taskId) st evs)) taskId = Some t)"
  by (induction evs arbitrary: st) (simp_all add: orch_step_present)

lemma applyEffect_not_completed:
  "taskField tm taskId ''status'' \<noteq> Some (Json (JStr ''completed'')) \<Longrightarrow>
   taskField (applyEffect taskId now tm e) taskId ''status'' \<noteq> Some (Json (JStr ''completed''))"
  by (cases e)
     (auto simp: progressCallback_def taskField_updateTask processingUpdate_def split: option.splits)

lemma applyEffects_not_completed:
  "taskField tm taskId ''status'' \<noteq> Some (Json (JStr ''completed'')) \<Longrightarrow>
   taskField (foldl (applyEffect taskId now) tm es) taskId ''status'' \<noteq> Some (Json (JStr ''completed''))"
  by (induction es arbitrary: tm) (simp_all add: applyEffect_not_completed)

lemma report_rejected_not_completed:
  "taskField (report taskId now (Rejected e) tm) taskId ''status'' \<noteq> Some (Json (JStr ''completed''))"
  by (auto simp: taskField_updateTask failedUpdate_def split: option.splits)

lemma report_status:
  "(\<exists>t. getTask tm taskId = Some t) \<Longrightarrow>
   taskField (report taskId now (Rejected e) tm) taskId ''status'' = Some (Json (JStr ''failed'')) \<and>
   taskField (report taskId now (Rejected e) tm) taskId ''error'' = Some (Json (JStr (message e))) \<and>
   taskField (report taskId now (Resolved a b n) tm) taskId ''status'' = Some (Json (JStr ''completed'')) \<and>
   taskField (report taskId now (Resolved a b n) tm) taskId ''filename'' = Some (Json (JStr a))"
  by (auto simp: taskField_updateTask failedUpdate_def completedUpdate_def split: option.splits)

lemma run_output_only:
  assumes "\<forall>te \<in> set pre. is_output (snd te)" and "settled (proc st) = None"
  shows "settled (proc (foldl (orch_step rt taskId) st pre)) = None \<and>
         timeout (proc (foldl (orch_step rt taskId) st pre)) = timeout (proc st) \<and>
         signals (proc (foldl (orch_step rt taskId) st pre)) = signals (proc st) \<and>
         filename (proc (foldl (orch_step rt taskId) st pre)) = filename (proc st) \<and>
         outputPath (proc (foldl (orch_step rt taskId) st pre)) = outputPath (proc st) \<and>
         reported (foldl (orch_step rt taskId) st pre) = reported st"
  using assms
proof (induction pre arbitrary: st)
  case Nil
  then show ?case by simp
next
  case (Cons te pre)
  have out: "is_output (snd te)" using Cons.prems(1) by simp
  note step = pv_step_output [OF out, of rt "proc st"]
  have s: "settled (proc (orch_step rt taskId st te)) = None"
    using step Cons.prems(2) by (simp add: proc_orch_step)
  have r: "reported (orch_step rt taskId st te) = reported st"
    using step Cons.prems(2) by (simp add: reported_orch_step)
  show ?case
    using Cons.IH [of "orch_step rt taskId st te"] Cons.prems(1) s r step
    by (simp add: proc_orch_step)
qed

lemma run_settled:
  "settled (proc st) = Some out \<Longrightarrow> settled (proc (foldl (orch_step rt taskId) st evs)) = Some out"
  by (induction evs arbitrary: st) (simp_all add: proc_orch_step pv_step_settled)

lemma run_reported_not_completed:
  assumes "reported st"
    and "taskField (manager st) taskId ''status'' \<noteq> Some (Json (JStr ''completed''))"
  shows "taskField (manager (foldl (orch_step rt taskId) st evs)) taskId ''status''
           \<noteq> Some (Json (JStr ''completed''))"
  using assms
proof (induction evs arbitrary: st)
  case Nil
  then show ?case by simp
next
  case (Cons te evs)
  have r: "reported (orch_step rt taskId st te)"
    using Cons.prems(1) by (simp add: reported_orch_step)
  have m: "taskField (manager (orch_step rt taskId st te)) taskId ''status''
             \<noteq> Some (Json (JStr ''completed''))"
    using Cons.prems applyEffects_not_completed [of "manager st" taskId]
    by (simp add: manager_orch_step split: option.splits)
  show ?case using Cons.IH [OF r m] by simp
qed

lemma run_timer_stays:
  "timeout (proc st) \<noteq> Armed \<Longrightarrow>
     timeout (proc (foldl (orch_step rt taskId) st evs)) = timeout (proc st) \<and>
     signals (proc (foldl (orch_step rt taskId) st evs)) = signals (proc st)"
  by (induction evs arbitrary: st) (simp_all add: proc_orch_step pv_step_timeout pv_step_signals)

lemma run_no_close:
  "\<forall>te \<in> set evs. \<forall>code stat. snd te \<noteq> Close code stat \<Longrightarrow> timeout (proc st) \<noteq> Cleared \<Longrightarrow>
     timeout (proc (foldl (orch_step rt taskId) st evs)) \<noteq> Cleared"
proof (induction evs arbitrary: st)
  case Nil
  then show ?case by simp
next
  case (Cons te evs)
  have "timeout (proc (orch_step rt taskId st te)) \<noteq> Cleared"
    using Cons.prems by (auto simp: proc_orch_step pv_step_timeout split: event.splits)
  then show ?case using Cons.IH Cons.prems(1) by simp
qed

lemma run_no_timer:
  "\<forall>te \<in> set evs. snd te \<noteq> TimerFires \<Longrightarrow> timeout (proc st) \<noteq> Fired \<Longrightarrow>
     timeout (proc (foldl (orch_step rt taskId) st evs)) \<noteq> Fired \<and>
     signals (proc (foldl (orch_step rt taskId) st evs)) = signals (proc st)"
proof (induction evs arbitrary: st)
  case Nil
  then show ?case by simp
next
  case (Cons te evs)
  have "timeout (proc (orch_step rt taskId st te)) \<noteq> Fired"
       "signals (proc (orch_step rt taskId st te)) = signals (proc st)"
    using Cons.prems by (auto simp: proc_orch_step pv_step_timeout pv_step_signals split: event.splits)
  then show ?case using Cons.IH [of "orch_step rt taskId st te"] Cons.prems(1) by simp
qed

lemma run_signals_timer:
  "signals (proc st) = (if timeout (proc st) = Fired then 1 else 0) \<Longrightarrow>
   signals (proc (foldl (orch_step rt taskId) st evs)) =
     (if timeout (proc (foldl (orch_step rt taskId) st evs)) = Fired then 1 else 0)"
proof (induction evs arbitrary: st)
  case Nil
  then show ?case by simp
next
  case (Cons te evs)
  have "signals (proc (orch_step rt taskId st te)) =
          (if timeout (proc (orch_step rt taskId st te)) = Fired then 1 else 0)"
    using Cons.prems
    by (auto simp: proc_orch_step pv_step_timeout pv_step_signals split: event.splits)
  then show ?case using Cons.IH by simp
qed

lemma run_completed_cause:
  assumes "taskField (manager st) taskId ''status'' \<noteq> Some (Json (JStr ''completed''))"
    and "settled (proc st) = None"
  shows "(taskField (manager (foldl (orch_step rt taskId) st evs)) taskId ''status''
            = Some (Json (JStr ''completed'')) \<or>
          (\<exists>a b n. settled (proc (foldl (orch_step rt taskId) st evs)) = Some (Resolved a b n))) \<longrightarrow>
         (\<exists>t n. (t, Close (Some 0) (StatOk n)) \<in> set evs \<and> 0 < n)"
proof (induction evs rule: rev_induct)
  case Nil
  then show ?case using assms by simp
next
  case (snoc te evs)
  let ?st = "foldl (orch_step rt taskId) st evs"
  let ?st' = "orch_step rt taskId ?st te"
  let ?good = "\<lambda>es. \<exists>t n. (t, Close (Some 0) (StatOk n)) \<in> set es \<and> (0::nat) < n"
  have res: "(\<exists>a b n. settled (proc ?st') = Some (Resolved a b n)) \<longrightarrow> ?good (evs @ [te])"
  proof
    assume "\<exists>a b n. settled (proc ?st') = Some (Resolved a b n)"
    then obtain a b n where "settled (fst (pv_step rt (proc ?st) (snd te))) = Some (Resolved a b n)"
      by (auto simp: proc_orch_step)
    from pv_step_resolved [OF this]
    show "?good (evs @ [te])"
    proof
      assume "settled (proc ?st) = Some (Resolved a b n)"
      then show ?thesis using snoc.IH by auto
    next
      assume "\<exists>c. snd te = Close (Some 0) (StatOk c) \<and> 0 < c"
      then obtain c where "snd te = Close (Some 0) (StatOk c)" "0 < c" by blast
      then have "(fst te, Close (Some 0) (StatOk c)) \<in> set (evs @ [te])"
        by (metis in_set_conv_decomp prod.collapse)
      then show ?thesis using \<open>0 < c\<close> by blast
    qed
  qed
  have st: "taskField (manager ?st') taskId ''status'' = Some (Json (JStr ''completed'')) \<longrightarrow>
            ?good (evs @ [te])"
  proof
    assume c: "taskField (manager ?st') taskId ''status'' = Some (Json (JStr ''completed''))"
    show "?good (evs @ [te])"
    proof (cases "taskField (manager ?st) taskId ''status'' = Some (Json (JStr ''completed''))")
      case True
      then show ?thesis using snoc.IH by auto
    next
      case False
      note nc = applyEffects_not_completed [OF False, of "fst te" "snd (pv_step rt (proc ?st) (snd te))"]
      from c nc obtain out where
        out: "settled (proc ?st') = Some out" "\<not> reported ?st"
          "taskField (report taskId (fst te) out
             (foldl (applyEffect taskId (fst te)) (manager ?st) (snd (pv_step rt (proc ?st) (snd te)))))
             taskId ''status'' = Some (Json (JStr ''completed''))"
        by (auto simp: manager_orch_step proc_orch_step split: option.splits if_splits)
      then obtain a b n where "out = Resolved a b n"
        using report_rejected_not_completed by (cases out) auto
      then show ?thesis using res out(1) by blast
    qed
  qed
  show ?case using res st by auto
qed

lemma start_proc:
  "settled (proc (processVideoAsync_start tm taskId now name path)) = None \<and>
   timeout (proc (processVideoAsync_start tm taskId now name path)) = Armed \<and>
   signals (proc (processVideoAsync_start tm taskId now name path)) = 0 \<and>
   filename (proc (processVideoAsync_start tm taskId now name path)) = name \<and>
   outputPath (proc (processVideoAsync_start tm taskId now name path)) = path \<and>
   reported (processVideoAsync_start tm taskId now name path) = False"
  by (simp add: processVideoAsync_start_def processVideo_spawned_def)

lemma start_not_completed:
  "taskField (manager (processVideoAsync_start tm taskId now name path)) taskId ''status''
     \<noteq> Some (Json (JStr ''completed''))"
  by (auto simp: processVideoAsync_start_def taskField_updateTask processingUpdate_def
      split: option.splits)

lemma start_present:
  "getTask tm taskId = Some task \<Longrightarrow>
   \<exists>t. getTask (manager (processVideoAsync_start tm taskId now name path)) taskId = Some t"
  by (simp add: processVideoAsync_start_def getTask_updateTask_present)

lemma first_settling_step:
  assumes "settled (proc st) = None" and "\<not> reported st"
    and "\<exists>t. getTask (manager st) taskId = Some t"
    and "settled (fst (pv_step rt (proc st) (snd te))) = Some out"
  shows "manager (orch_step rt taskId st te) =
           report taskId (fst te) out
             (foldl (applyEffect taskId (fst te)) (manager st) (snd (pv_step rt (proc st) (snd te))))"
    and "\<exists>t. getTask (foldl (applyEffect taskId (fst te)) (manager st)
                 (snd (pv_step rt (proc st) (snd te)))) taskId = Some t"
    and "reported (orch_step rt taskId st te)"
  using assms by (simp_all add: manager_orch_step reported_orch_step applyEffects_present)


lemma progress_text_lines:
  \<open>split_newline (''{"status":"downloading","percent":50}'' @ [CHR 0x0A])
     = [''{"status":"downloading","percent":50}'', []]\<close>
  \<open>trim ''{"status":"downloading","percent":50}'' = ''{"status":"downloading","percent":50}''\<close>
  "trim [] = []"
  by (simp_all add: trim_def is_space_def)

lemma progress_line_effects:
  assumes \<open>JSON_parse rt ''{"status":"downloading","percent":50}''
             = Some (JObj [(''status'', JStr ''downloading''), (''percent'', JNum (Fin 50))])\<close>
  shows \<open>processLine rt ''{"status":"downloading","percent":50}''
           = [JsonParse ''{"status":"downloading","percent":50}'', Callback (Fin 50)]\<close>
  using assms by (simp add: processLine_def progress_text_lines handleProgressInfo_def)


text \<open>
  C7. Let the task be in the registry and let the \<^verbatim>\<open>close\<close> event with exit code 0 be
  the first event of the run other than output. If \<^verbatim>\<open>fs.stat\<close> fails or reports size 0,
  the promise is rejected with the error \<open>Output file not found or empty\<close>, the task gets
  status failed with that message, and its status is completed at no later time. If
  the size is positive the task gets status completed with the file name. In every run
  whatsoever, a task with status completed implies a \<^verbatim>\<open>close\<close> event with exit code 0
  and a positive size of the output file.
\<close>

theorem exit_zero_needs_artifact:
  assumes "getTask tm taskId = Some task"
  shows
    "((\<forall>te \<in> set pre. is_output (snd te)) \<and> (stat = StatOk 0 \<or> (\<exists>m. stat = StatError m)) \<longrightarrow>
        (\<exists>m. settled (proc (processVideoAsync rt tm taskId now name path
                 (pre @ [(t, Close (Some 0) stat)]))) = Some (Rejected (OutputMissingOrEmpty m)) \<and>
              taskField (manager (processVideoAsync rt tm taskId now name path
                 (pre @ [(t, Close (Some 0) stat)]))) taskId ''status'' = Some (Json (JStr ''failed'')) \<and>
              taskField (manager (processVideoAsync rt tm taskId now name path
                 (pre @ [(t, Close (Some 0) stat)]))) taskId ''error''
                = Some (Json (JStr (''Output file not found or empty: '' @ m)))) \<and>
        (\<forall>suf. taskField (manager (processVideoAsync rt tm taskId now name path
                 (pre @ (t, Close (Some 0) stat) # suf))) taskId ''status''
                \<noteq> Some (Json (JStr ''completed'')))) \<and>
     (taskField (manager (processVideoAsync rt tm taskId now name path evs)) taskId ''status''
        = Some (Json (JStr ''completed'')) \<longrightarrow>
        (\<exists>t n. (t, Close (Some 0) (StatOk n)) \<in> set evs \<and> 0 < n)) \<and>
     ((\<forall>te \<in> set pre. is_output (snd te)) \<and> 0 < n \<longrightarrow>
        taskField (manager (processVideoAsync rt tm taskId now name path
           (pre @ [(t, Close (Some 0) (StatOk n))]))) taskId ''status'' = Some (Json (JStr ''completed'')) \<and>
        taskField (manager (processVideoAsync rt tm taskId now name path
           (pre @ [(t, Close (Some 0) (StatOk n))]))) taskId ''filename'' = Some (Json (JStr name)))"
proof -
  let ?start = "processVideoAsync_start tm taskId now name path"
  let ?run = "\<lambda>evs. foldl (orch_step rt taskId) ?start evs"
  have run: "\<And>evs. processVideoAsync rt tm taskId now name path evs = ?run evs"
    by (simp add: processVideoAsync_def)
  note sp = start_proc [of tm taskId now name path]
  have pres: "\<And>evs. \<exists>t. getTask (manager (?run evs)) taskId = Some t"
    using run_present [OF start_present [OF assms]] by blast
  have part2: "taskField (manager (?run evs)) taskId ''status'' = Some (Json (JStr ''completed'')) \<longrightarrow>
        (\<exists>t n. (t, Close (Some 0) (StatOk n)) \<in> set evs \<and> 0 < n)"
  proof -
    have s: "settled (proc ?start) = None" using sp by simp
    show ?thesis
      using run_completed_cause [OF start_not_completed s] by auto
  qed
  have part1: "(\<exists>m. settled (proc (?run (pre @ [(t, Close (Some 0) stat)])))
                       = Some (Rejected (OutputMissingOrEmpty m)) \<and>
              taskField (manager (?run (pre @ [(t, Close (Some 0) stat)]))) taskId ''status''
                = Some (Json (JStr ''failed'')) \<and>
              taskField (manager (?run (pre @ [(t, Close (Some 0) stat)]))) taskId ''error''
                = Some (Json (JStr (''Output file not found or empty: '' @ m)))) \<and>
        (\<forall>suf. taskField (manager (?run (pre @ (t, Close (Some 0) stat) # suf))) taskId ''status''
                \<noteq> Some (Json (JStr ''completed'')))"
    if out: "\<forall>te \<in> set pre. is_output (snd te)" and bad: "stat = StatOk 0 \<or> (\<exists>m. stat = StatError m)"
  proof -
    let ?st = "?run pre"
    let ?te = "(t, Close (Some 0) stat)"
    note o = run_output_only [OF out, of ?start rt taskId]
    have s0: "settled (proc ?st) = None" and r0: "\<not> reported ?st"
      using o sp by simp_all
    obtain m where m: "settled (fst (pv_step rt (proc ?st) (snd ?te))) = Some (Rejected (OutputMissingOrEmpty m))"
      using bad s0 by (auto simp: onClose_def settle_def clearTimeout_def)
    note f = first_settling_step [OF s0 r0 pres m]
    have a: "settled (proc (orch_step rt taskId ?st ?te)) = Some (Rejected (OutputMissingOrEmpty m))"
      using m by (simp add: proc_orch_step)
    have b: "taskField (manager (orch_step rt taskId ?st ?te)) taskId ''status'' = Some (Json (JStr ''failed''))"
         "taskField (manager (orch_step rt taskId ?st ?te)) taskId ''error''
            = Some (Json (JStr (''Output file not found or empty: '' @ m)))"
      using report_status [OF f(2), of t "OutputMissingOrEmpty m"] f(1) by simp_all
    have c: "taskField (manager (foldl (orch_step rt taskId) (orch_step rt taskId ?st ?te) suf)) taskId ''status''
               \<noteq> Some (Json (JStr ''completed''))" for suf
      using run_reported_not_completed [OF f(3), of taskId rt suf] b(1) by simp
    show ?thesis using a b c by auto
  qed
  have part3: "taskField (manager (?run (pre @ [(t, Close (Some 0) (StatOk n))]))) taskId ''status''
                 = Some (Json (JStr ''completed'')) \<and>
               taskField (manager (?run (pre @ [(t, Close (Some 0) (StatOk n))]))) taskId ''filename''
                 = Some (Json (JStr name))"
    if out: "\<forall>te \<in> set pre. is_output (snd te)" and n: "0 < n"
  proof -
    let ?st = "?run pre"
    let ?te = "(t, Close (Some 0) (StatOk n))"
    note o = run_output_only [OF out, of ?start rt taskId]
    have s0: "settled (proc ?st) = None" and r0: "\<not> reported ?st"
      and fn: "filename (proc ?st) = name"
      using o sp by simp_all
    have m: "settled (fst (pv_step rt (proc ?st) (snd ?te)))
               = Some (Resolved name (outputPath (proc ?st)) n)"
      using n s0 fn by (simp add: onClose_def settle_def clearTimeout_def)
    note f = first_settling_step [OF s0 r0 pres m]
    show ?thesis
      using report_status [OF f(2), of t _ name "outputPath (proc ?st)" n] f(1) by simp
  qed
  show ?thesis
    unfolding run using part1 part2 part3 by blast
qed

theorem exit_zero_needs_artifact_witness:
  "getTask (snd (createTask new_TaskManager ''a'' [''status'' \<mapsto> Json (JStr ''pending'')] 1)) ''a''
     = Some (newTask ''a'' [''status'' \<mapsto> Json (JStr ''pending'')] 1) \<and>
   is_output (StderrData ''warning'') \<and>
   (\<forall>rt. taskField (manager (processVideoAsync rt
        (snd (createTask new_TaskManager ''a'' [''status'' \<mapsto> Json (JStr ''pending'')] 1))
        ''a'' 2 ''video.mp4'' ''/downloads/video.mp4''
        [(3, StderrData ''warning''), (4, Close (Some 0) (StatOk 0))])) ''a'' ''status''
      = Some (Json (JStr ''failed''))) \<and>
   (\<forall>rt. taskField (manager (processVideoAsync rt
        (snd (createTask new_TaskManager ''a'' [''status'' \<mapsto> Json (JStr ''pending'')] 1))
        ''a'' 2 ''video.mp4'' ''/downloads/video.mp4''
        [(3, StderrData ''warning''), (4, Close (Some 0) (StatOk 10))])) ''a'' ''status''
      = Some (Json (JStr ''completed'')))"
proof -
  let ?tm = "snd (createTask new_TaskManager ''a'' [''status'' \<mapsto> Json (JStr ''pending'')] 1)"
  have present: "getTask ?tm ''a'' = Some (newTask ''a'' [''status'' \<mapsto> Json (JStr ''pending'')] 1)"
    by (simp add: createTask_def new_TaskManager_def cleanupOldTasks_def getTask_def)
  have out: "\<forall>te \<in> set [(3 :: int, StderrData ''warning'')]. is_output (snd te)"
    by simp
  have failed: "taskField (manager (processVideoAsync rt ?tm ''a'' 2 ''video.mp4'' ''/downloads/video.mp4''
        [(3, StderrData ''warning''), (4, Close (Some 0) (StatOk 0))])) ''a'' ''status''
      = Some (Json (JStr ''failed''))" for rt
    using exit_zero_needs_artifact [OF present, of "[(3, StderrData ''warning'')]" "StatOk 0"
        rt 2 "''video.mp4''" "''/downloads/video.mp4''" 4 "[]" 10] out
    by auto
  have completed: "taskField (manager (processVideoAsync rt ?tm ''a'' 2 ''video.mp4'' ''/downloads/video.mp4''
        [(3, StderrData ''warning''), (4, Close (Some 0) (StatOk 10))])) ''a'' ''status''
      = Some (Json (JStr ''completed''))" for rt
    using exit_zero_needs_artifact [OF present, of "[(3, StderrData ''warning'')]" "StatOk 0"
        rt 2 "''video.mp4''" "''/downloads/video.mp4''" 4 "[]" 10] out
    by auto
  show ?thesis using present failed completed by simp
qed


text \<open>
  C8. At most one \<^verbatim>\<open>kill('SIGTERM')\<close> is made in any run. When the timer runs out before
  any \<^verbatim>\<open>close\<close> event, exactly one is made, whatever follows; when nothing but output
  came before, the promise is rejected with the timeout error and the task gets status failed
  with the timeout message. When a \<^verbatim>\<open>close\<close> event comes before the timer has run out, the
  timer is cleared and no signal is sent, whatever follows.
\<close>

theorem timeout_ceiling:
  assumes "getTask tm taskId = Some task"
  shows
    "signals (proc (processVideoAsync rt tm taskId now name path evs)) \<le> 1 \<and>
     ((\<forall>te \<in> set pre. \<forall>code stat. snd te \<noteq> Close code stat) \<longrightarrow>
        signals (proc (processVideoAsync rt tm taskId now name path (pre @ (t, TimerFires) # suf))) = 1) \<and>
     ((\<forall>te \<in> set pre. is_output (snd te)) \<longrightarrow>
        settled (proc (processVideoAsync rt tm taskId now name path (pre @ (t, TimerFires) # suf)))
          = Some (Rejected DownloadTimeout) \<and>
        taskField (manager (processVideoAsync rt tm taskId now name path (pre @ [(t, TimerFires)])))
          taskId ''status'' = Some (Json (JStr ''failed'')) \<and>
        taskField (manager (processVideoAsync rt tm taskId now name path (pre @ [(t, TimerFires)])))
          taskId ''error'' = Some (Json (JStr ''Video download timeout (30 minutes)''))) \<and>
     ((\<forall>te \<in> set pre. snd te \<noteq> TimerFires) \<longrightarrow>
        timeout (proc (processVideoAsync rt tm taskId now name path (pre @ (t, Close code stat) # suf)))
          = Cleared \<and>
        signals (proc (processVideoAsync rt tm taskId now name path (pre @ (t, Close code stat) # suf)))
          = 0)"
proof -
  let ?start = "processVideoAsync_start tm taskId now name path"
  let ?run = "\<lambda>evs. foldl (orch_step rt taskId) ?start evs"
  have run: "\<And>evs. processVideoAsync rt tm taskId now name path evs = ?run evs"
    by (simp add: processVideoAsync_def)
  note sp = start_proc [of tm taskId now name path]
  have pres: "\<And>evs. \<exists>t. getTask (manager (?run evs)) taskId = Some t"
    using run_present [OF start_present [OF assms]] by blast
  have inv: "signals (proc (?run evs)) = (if timeout (proc (?run evs)) = Fired then 1 else 0)" for evs
    using run_signals_timer [of ?start rt taskId evs] sp by simp
  have part1: "signals (proc (?run evs)) \<le> 1"
    using inv [of evs] by simp
  have part2: "signals (proc (?run (pre @ (t, TimerFires) # suf))) = 1"
    if nc: "\<forall>te \<in> set pre. \<forall>code stat. snd te \<noteq> Close code stat"
  proof -
    let ?st = "?run pre"
    let ?st' = "orch_step rt taskId ?st (t, TimerFires)"
    have "timeout (proc ?st) \<noteq> Cleared"
      using run_no_close [OF nc, of ?start rt taskId] sp by simp
    then have fired: "timeout (proc ?st') = Fired"
      by (cases "timeout (proc ?st)") (simp_all add: proc_orch_step pv_step_timeout del: pv_step.simps)
    then have "timeout (proc (foldl (orch_step rt taskId) ?st' suf)) = Fired"
      using run_timer_stays [of ?st' rt taskId suf] by simp
    then have "timeout (proc (?run (pre @ (t, TimerFires) # suf))) = Fired"
      by simp
    then show ?thesis using inv [of "pre @ (t, TimerFires) # suf"] by simp
  qed
  have part3: "settled (proc (?run (pre @ (t, TimerFires) # suf))) = Some (Rejected DownloadTimeout) \<and>
        taskField (manager (?run (pre @ [(t, TimerFires)]))) taskId ''status''
          = Some (Json (JStr ''failed'')) \<and>
        taskField (manager (?run (pre @ [(t, TimerFires)]))) taskId ''error''
          = Some (Json (JStr ''Video download timeout (30 minutes)''))"
    if out: "\<forall>te \<in> set pre. is_output (snd te)"
  proof -
    let ?st = "?run pre"
    let ?te = "(t, TimerFires)"
    note o = run_output_only [OF out, of ?start rt taskId]
    have s0: "settled (proc ?st) = None" and r0: "\<not> reported ?st"
      and armed: "timeout (proc ?st) = Armed"
      using o sp by simp_all
    have m: "settled (fst (pv_step rt (proc ?st) (snd ?te))) = Some (Rejected DownloadTimeout)"
      using s0 armed by (simp add: settle_def)
    note f = first_settling_step [OF s0 r0 pres m]
    have "settled (proc (orch_step rt taskId ?st ?te)) = Some (Rejected DownloadTimeout)"
      using m by (simp add: proc_orch_step)
    then have a: "settled (proc (?run (pre @ ?te # suf))) = Some (Rejected DownloadTimeout)"
      using run_settled [of "orch_step rt taskId ?st ?te" _ rt taskId suf] by simp
    show ?thesis
      using a report_status [OF f(2), of t DownloadTimeout] f(1) by simp
  qed
  have part4: "timeout (proc (?run (pre @ (t, Close code stat) # suf))) = Cleared \<and>
        signals (proc (?run (pre @ (t, Close code stat) # suf))) = 0"
    if nt: "\<forall>te \<in> set pre. snd te \<noteq> TimerFires"
  proof -
    let ?st = "?run pre"
    let ?st' = "orch_step rt taskId ?st (t, Close code stat)"
    have "timeout (proc ?st) \<noteq> Fired"
      using run_no_timer [OF nt, of ?start rt taskId] sp by simp
    then have cleared: "timeout (proc ?st') = Cleared"
      by (cases "timeout (proc ?st)") (simp_all add: proc_orch_step pv_step_timeout del: pv_step.simps)
    then have "timeout (proc (foldl (orch_step rt taskId) ?st' suf)) = Cleared"
      using run_timer_stays [of ?st' rt taskId suf] by simp
    then have c: "timeout (proc (?run (pre @ (t, Close code stat) # suf))) = Cleared"
      by simp
    then show ?thesis using inv [of "pre @ (t, Close code stat) # suf"] by simp
  qed
  show ?thesis
    unfolding run using part1 part2 part3 part4 by blast
qed

theorem timeout_ceiling_witness:
  "getTask (snd (createTask new_TaskManager ''a'' [''status'' \<mapsto> Json (JStr ''pending'')] 1)) ''a''
     = Some (newTask ''a'' [''status'' \<mapsto> Json (JStr ''pending'')] 1) \<and>
   is_output (StderrData ''warning'') \<and>
   (\<forall>rt. signals (proc (processVideoAsync rt
        (snd (createTask new_TaskManager ''a'' [''status'' \<mapsto> Json (JStr ''pending'')] 1))
        ''a'' 2 ''video.mp4'' ''/downloads/video.mp4''
        [(3, StderrData ''warning''), (1800002, TimerFires), (1800003, Close None (StatError ''ENOENT''))]))
      = 1) \<and>
   (\<forall>rt. taskField (manager (processVideoAsync rt
        (snd (createTask new_TaskManager ''a'' [''status'' \<mapsto> Json (JStr ''pending'')] 1))
        ''a'' 2 ''video.mp4'' ''/downloads/video.mp4''
        [(3, StderrData ''warning''), (1800002, TimerFires)])) ''a'' ''status''
      = Some (Json (JStr ''failed''))) \<and>
   (\<forall>rt. signals (proc (processVideoAsync rt
        (snd (createTask new_TaskManager ''a'' [''status'' \<mapsto> Json (JStr ''pending'')] 1))
        ''a'' 2 ''video.mp4'' ''/downloads/video.mp4''
        [(3, StderrData ''warning''), (4, Close (Some 1) (StatError ''ENOENT'')), (1800002, TimerFires)]))
      = 0)"
proof -
  let ?tm = "snd (createTask new_TaskManager ''a'' [''status'' \<mapsto> Json (JStr ''pending'')] 1)"
  have present: "getTask ?tm ''a'' = Some (newTask ''a'' [''status'' \<mapsto> Json (JStr ''pending'')] 1)"
    by (simp add: createTask_def new_TaskManager_def cleanupOldTasks_def getTask_def)
  have out: "\<forall>te \<in> set [(3 :: int, StderrData ''warning'')]. is_output (snd te)"
    by simp
  have nc: "\<forall>te \<in> set [(3 :: int, StderrData ''warning'')]. \<forall>code stat. snd te \<noteq> Close code stat"
    by simp
  have nt: "\<forall>te \<in> set [(3 :: int, StderrData ''warning'')]. snd te \<noteq> TimerFires"
    by simp
  have one: "signals (proc (processVideoAsync rt ?tm ''a'' 2 ''video.mp4'' ''/downloads/video.mp4''
        [(3, StderrData ''warning''), (1800002, TimerFires), (1800003, Close None (StatError ''ENOENT''))]))
      = 1" for rt
    using timeout_ceiling [OF present, of rt 2 "''video.mp4''" "''/downloads/video.mp4''" "[]"
        "[(3, StderrData ''warning'')]" 1800002 "[(1800003, Close None (StatError ''ENOENT''))]"] nc
    by auto
  have failed: "taskField (manager (processVideoAsync rt ?tm ''a'' 2 ''video.mp4'' ''/downloads/video.mp4''
        [(3, StderrData ''warning''), (1800002, TimerFires)])) ''a'' ''status''
      = Some (Json (JStr ''failed''))" for rt
    using timeout_ceiling [OF present, of rt 2 "''video.mp4''" "''/downloads/video.mp4''" "[]"
        "[(3, StderrData ''warning'')]" 1800002 "[]"] out
    by auto
  have none: "signals (proc (processVideoAsync rt ?tm ''a'' 2 ''video.mp4'' ''/downloads/video.mp4''
        [(3, StderrData ''warning''), (4, Close (Some 1) (StatError ''ENOENT'')), (1800002, TimerFires)]))
      = 0" for rt
    using timeout_ceiling [OF present, of rt 2 "''video.mp4''" "''/downloads/video.mp4''" "[]"
        "[(3, StderrData ''warning'')]" 4 "[(1800002, TimerFires)]" "Some 1" "StatError ''ENOENT''"] nt
    by auto
  show ?thesis using present one failed none by simp
qed

text \<open>
  C1, at a run where output arrives after the timer has run out. The task is processing
  when the run starts and failed after the timer has run out; the next chunk of stdout
  with a progress line sets its status to processing again, with progress 50.
\<close>

theorem late_progress_reopens_failed_task:
  assumes "getTask tm taskId = Some task"
    and \<open>JSON_parse rt ''{"status":"downloading","percent":50}''
             = Some (JObj [(''status'', JStr ''downloading''), (''percent'', JNum (Fin 50))])\<close>
  shows \<open>taskField (manager (processVideoAsync rt tm taskId now name path [])) taskId ''status''
           = Some (Json (JStr ''processing'')) \<and>
         taskField (manager (processVideoAsync rt tm taskId now name path
             [(t1, TimerFires)])) taskId ''status''
           = Some (Json (JStr ''failed'')) \<and>
         taskField (manager (processVideoAsync rt tm taskId now name path
             [(t1, TimerFires),
              (t2, StdoutData (''{"status":"downloading","percent":50}'' @ [CHR 0x0A]))])) taskId ''status''
           = Some (Json (JStr ''processing'')) \<and>
         taskField (manager (processVideoAsync rt tm taskId now name path
             [(t1, TimerFires),
              (t2, StdoutData (''{"status":"downloading","percent":50}'' @ [CHR 0x0A]))])) taskId ''progress''
           = Some (Json (JNum (Fin 50)))\<close>
proof -
  let ?start = "processVideoAsync_start tm taskId now name path"
  let ?st1 = "orch_step rt taskId ?start (t1, TimerFires)"
  let ?chunk = \<open>''{"status":"downloading","percent":50}'' @ [CHR 0x0A]\<close>
  let ?st2 = "orch_step rt taskId ?st1 (t2, StdoutData ?chunk)"
  note sp = start_proc [of tm taskId now name path]
  have p0: "\<exists>t. getTask (manager ?start) taskId = Some t"
    using start_present [OF assms(1)] .
  have a: "taskField (manager ?start) taskId ''status'' = Some (Json (JStr ''processing''))"
    using assms(1) by (simp add: processVideoAsync_start_def taskField_updateTask processingUpdate_def)
  have m: "settled (fst (pv_step rt (proc ?start) (snd (t1, TimerFires)))) = Some (Rejected DownloadTimeout)"
    using sp by (simp add: settle_def)
  have s0: "settled (proc ?start) = None" and r0: "\<not> reported ?start" using sp by simp_all
  note f = first_settling_step [OF s0 r0 p0 m]
  have b: "taskField (manager ?st1) taskId ''status'' = Some (Json (JStr ''failed''))"
    using report_status [OF f(2), of t1 DownloadTimeout] f(1) by simp
  have p1: "\<exists>t. getTask (manager ?st1) taskId = Some t"
    using orch_step_present [OF p0] .
  have buf: "progressData (proc ?st1) = []"
    by (simp add: proc_orch_step processVideoAsync_start_def processVideo_spawned_def settle_def)
  have s1: "settled (proc ?st1) = Some (Rejected DownloadTimeout)"
    using m by (simp add: proc_orch_step)
  have effs: \<open>snd (pv_step rt (proc ?st1) (StdoutData ?chunk))
                = [JsonParse ''{"status":"downloading","percent":50}'', Callback (Fin 50)]\<close>
    using progress_line_effects [OF assms(2)] buf
    by (simp add: onStdoutData_def progress_text_lines processLine_def)
  have s2: "settled (fst (pv_step rt (proc ?st1) (StdoutData ?chunk))) = Some (Rejected DownloadTimeout)"
    using pv_step_settled [OF s1] .
  have m2: "manager ?st2 = progressCallback taskId t2 (Fin 50) (manager ?st1)"
    using s2 f(3) effs by (simp add: manager_orch_step del: pv_step.simps)
  obtain t where t: "getTask (manager ?st1) taskId = Some t" using p1 by blast
  have c: "taskField (manager ?st2) taskId ''status'' = Some (Json (JStr ''processing''))"
          "taskField (manager ?st2) taskId ''progress'' = Some (Json (JNum (Fin 50)))"
    using t unfolding m2
    by (simp_all add: progressCallback_def taskField_updateTask processingUpdate_def
          math_round_numeral del: math_round.simps)
  show ?thesis
    using a b c by (simp add: processVideoAsync_def)
qed

theorem late_progress_reopens_failed_task_witness:
  \<open>getTask (snd (createTask new_TaskManager ''a'' [''status'' \<mapsto> Json (JStr ''pending'')] 1)) ''a''
     = Some (newTask ''a'' [''status'' \<mapsto> Json (JStr ''pending'')] 1) \<and>
   taskField (manager (processVideoAsync
      \<lparr>JSON_parse = (\<lambda>s. if s = ''{"status":"downloading","percent":50}''
                           then Some (JObj [(''status'', JStr ''downloading''), (''percent'', JNum (Fin 50))])
                           else None),
       parseFloat_string = (\<lambda>s. NaN)\<rparr>
      (snd (createTask new_TaskManager ''a'' [''status'' \<mapsto> Json (JStr ''pending'')] 1))
      ''a'' 2 ''video.mp4'' ''/downloads/video.mp4''
      [(1800002, TimerFires)])) ''a'' ''status''
     = Some (Json (JStr ''failed'')) \<and>
   taskField (manager (processVideoAsync
      \<lparr>JSON_parse = (\<lambda>s. if s = ''{"status":"downloading","percent":50}''
                           then Some (JObj [(''status'', JStr ''downloading''), (''percent'', JNum (Fin 50))])
                           else None),
       parseFloat_string = (\<lambda>s. NaN)\<rparr>
      (snd (createTask new_TaskManager ''a'' [''status'' \<mapsto> Json (JStr ''pending'')] 1))
      ''a'' 2 ''video.mp4'' ''/downloads/video.mp4''
      [(1800002, TimerFires),
       (1800003, StdoutData (''{"status":"downloading","percent":50}'' @ [CHR 0x0A]))])) ''a'' ''status''
     = Some (Json (JStr ''processing''))\<close>
proof -
  let ?tm = "snd (createTask new_TaskManager ''a'' [''status'' \<mapsto> Json (JStr ''pending'')] 1)"
  have present: "getTask ?tm ''a'' = Some (newTask ''a'' [''status'' \<mapsto> Json (JStr ''pending'')] 1)"
    by (simp add: createTask_def new_TaskManager_def cleanupOldTasks_def getTask_def)
  show ?thesis
    using late_progress_reopens_failed_task [OF present, of
      \<open>\<lparr>JSON_parse = (\<lambda>s. if s = ''{"status":"downloading","percent":50}''
                           then Some (JObj [(''status'', JStr ''downloading''), (''percent'', JNum (Fin 50))])
                           else None),
       parseFloat_string = (\<lambda>s. NaN)\<rparr>\<close>
      2 "''video.mp4''" "''/downloads/video.mp4''" 1800002 1800003] present
    by simp
qed

end
